theory Spec2Isabelle
  imports Main "HOL-Library.Word" "HOL-Library.Sublist" "HOL-Library.AList"
    "HOL-Library.Code_Target_Nat"
begin

section \<open>JavaScript strings\<close>

text \<open>
  A JavaScript string is a sequence of UTF-16 code units. A code unit is modelled by its
  number, a string by the list of its code units; \<open>js\<close> embeds an ASCII literal.
\<close>

type_synonym jsstring = "nat list"

abbreviation js :: "string \<Rightarrow> jsstring" where
  "js s \<equiv> map of_char s"

text \<open>\<^verbatim>\<open>\d\<close> of a regular expression without the unicode flag: the ten ASCII digits.\<close>

definition isDigit :: "nat \<Rightarrow> bool" where
  "isDigit c \<longleftrightarrow> 48 \<le> c \<and> c \<le> 57"

text \<open>The line terminators LF, CR, U+2028 and U+2029: the code units \<^verbatim>\<open>.\<close> does not match.\<close>

definition isLineTerminator :: "nat \<Rightarrow> bool" where
  "isLineTerminator c \<longleftrightarrow> c = 10 \<or> c = 13 \<or> c = 8232 \<or> c = 8233"

text \<open>
  \<^verbatim>\<open>\s\<close>, which is also what \<^verbatim>\<open>String.prototype.trim\<close> strips: TAB, VT, FF, SP, NBSP,
  U+FEFF, the space separators of Unicode, and the line terminators.
\<close>

definition isWhiteSpace :: "nat \<Rightarrow> bool" where
  "isWhiteSpace c \<longleftrightarrow>
     c = 9 \<or> c = 11 \<or> c = 12 \<or> c = 32 \<or> c = 160 \<or> c = 5760 \<or>
     (8192 \<le> c \<and> c \<le> 8202) \<or> c = 8239 \<or> c = 8287 \<or> c = 12288 \<or> c = 65279 \<or>
     isLineTerminator c"

definition trim :: "jsstring \<Rightarrow> jsstring" where
  "trim s = rev (dropWhile isWhiteSpace (rev (dropWhile isWhiteSpace s)))"

text \<open>\<^verbatim>\<open>haystack.includes(needle)\<close>: the needle occurs as a contiguous piece.\<close>

fun js_includes :: "jsstring \<Rightarrow> jsstring \<Rightarrow> bool" where
  "js_includes [] needle = (needle = [])"
| "js_includes (c # cs) needle = (prefix needle (c # cs) \<or> js_includes cs needle)"

text \<open>
  \<^verbatim>\<open>parseInt(digits, 10)\<close> on a string of decimal digits, and the conversion of a
  non-negative integer to a string inside a template literal. Numbers are modelled as
  naturals: the model is exact where the JavaScript number is, below \<open>2 ^ 53\<close>.
\<close>

definition parseInt :: "jsstring \<Rightarrow> nat" where
  "parseInt ds = foldl (\<lambda>acc d. 10 * acc + (d - 48)) 0 ds"

function numberToString :: "nat \<Rightarrow> jsstring" where
  "numberToString n =
     (if n < 10 then [48 + n] else numberToString (n div 10) @ [48 + n mod 10])"
  by pat_completeness auto
termination
  by (relation "measure id") auto

section \<open>Bible reference parser and formatter\<close>

record bible_ref =
  book :: jsstring
  chapter_num :: nat
  verse :: nat

text \<open>
  The regular expression \<^verbatim>\<open>/^(.*\D)\s*(\d+):(\d+)$/\<close>, as the backtracking matcher runs it.
  \<open>match_tail\<close> is \<^verbatim>\<open>\s*(\d+):(\d+)$\<close> on the rest of the input: white space, digits and
  the colon exclude each other, so the greedy quantifiers take maximal runs and no shorter
  choice can succeed. \<open>match_from s k\<close> is the first group with \<^verbatim>\<open>.*\<close> holding \<open>k\<close> code
  units and \<^verbatim>\<open>\D\<close> the next one; when the rest does not match, \<^verbatim>\<open>.*\<close> gives one code
  unit back. \<^verbatim>\<open>.*\<close> starts with the longest run free of line terminators.
\<close>

definition match_tail :: "jsstring \<Rightarrow> (jsstring \<times> jsstring) option" where
  "match_tail r =
     (let r1 = dropWhile isWhiteSpace r;
          c = takeWhile isDigit r1;
          r2 = dropWhile isDigit r1
      in case r2 of
           [] \<Rightarrow> None
         | x # v \<Rightarrow> if c \<noteq> [] \<and> x = 58 \<and> v \<noteq> [] \<and> list_all isDigit v
                    then Some (c, v) else None)"

definition match_at :: "jsstring \<Rightarrow> nat \<Rightarrow> (jsstring \<times> jsstring \<times> jsstring) option" where
  "match_at s k =
     (if k < length s \<and> \<not> isDigit (s ! k)
      then (case match_tail (drop (Suc k) s) of
              None \<Rightarrow> None
            | Some (c, v) \<Rightarrow> Some (take (Suc k) s, c, v))
      else None)"

fun match_from :: "jsstring \<Rightarrow> nat \<Rightarrow> (jsstring \<times> jsstring \<times> jsstring) option" where
  "match_from s 0 = match_at s 0"
| "match_from s (Suc k) =
     (case match_at s (Suc k) of
        Some m \<Rightarrow> Some m
      | None \<Rightarrow> match_from s k)"

definition regex_match :: "jsstring \<Rightarrow> (jsstring \<times> jsstring \<times> jsstring) option" where
  "regex_match s = match_from s (length (takeWhile (\<lambda>c. \<not> isLineTerminator c) s))"

definition parseBibleRef :: "jsstring \<Rightarrow> bible_ref option" where
  "parseBibleRef ref =
     (case regex_match (trim ref) of
        None \<Rightarrow> None
      | Some (g, c, v) \<Rightarrow>
          Some \<lparr>book = trim g, chapter_num = parseInt c, verse = parseInt v\<rparr>)"

definition formatBibleRef :: "bible_ref \<Rightarrow> jsstring" where
  "formatBibleRef parsed =
     book parsed @ [32] @ numberToString (chapter_num parsed) @ [58] @ numberToString (verse parsed)"

definition getNextVerseRef :: "jsstring \<Rightarrow> jsstring" where
  "getNextVerseRef bibleReference =
     (case parseBibleRef bibleReference of
        Some parsed \<Rightarrow> formatBibleRef (parsed\<lparr>verse := verse parsed + 1\<rparr>)
      | None \<Rightarrow> [])"

text \<open>
  The grammar as the specification words it: after trimming, the text ends in digits, a
  colon and digits, and what comes before (the book segment \<open>p\<close>) is not empty and ends
  in a code unit that is not a digit. The normal form of a number drops its leading zeros.
\<close>

definition reference_shape :: "jsstring \<Rightarrow> jsstring \<Rightarrow> jsstring \<Rightarrow> jsstring \<Rightarrow> bool" where
  "reference_shape s p c v \<longleftrightarrow>
     trim s = p @ c @ [58] @ v \<and> p \<noteq> [] \<and> \<not> isDigit (last p) \<and>
     c \<noteq> [] \<and> list_all isDigit c \<and> v \<noteq> [] \<and> list_all isDigit v"

definition stripLeadingZeros :: "jsstring \<Rightarrow> jsstring" where
  "stripLeadingZeros ds =
     (let r = dropWhile (\<lambda>d. d = 48) ds in if r = [] then [48] else r)"

section \<open>Thrown values\<close>

text \<open>
  The handlers look at a caught value in three ways: \<^verbatim>\<open>err instanceof Error\<close>,
  \<^verbatim>\<open>err.message\<close> and \<^verbatim>\<open>err.toString()\<close>. An \<^verbatim>\<open>Error\<close> object always has a message
  string; any other thrown value may have none. The services reject with objects; a
  rejection with \<^verbatim>\<open>null\<close> or \<^verbatim>\<open>undefined\<close>, which has no \<^verbatim>\<open>toString\<close>, is not modelled.
\<close>

datatype thrown =
    ErrorObject jsstring jsstring
  | OtherValue "jsstring option" jsstring

fun instanceofError :: "thrown \<Rightarrow> bool" where
  "instanceofError (ErrorObject m t) = True"
| "instanceofError (OtherValue m t) = False"

fun message :: "thrown \<Rightarrow> jsstring option" where
  "message (ErrorObject m t) = Some m"
| "message (OtherValue m t) = m"

fun toString :: "thrown \<Rightarrow> jsstring" where
  "toString (ErrorObject m t) = t"
| "toString (OtherValue m t) = t"

text \<open>\<^verbatim>\<open>new Error(msg)\<close>: its \<^verbatim>\<open>toString()\<close> is the name alone when the message is empty.\<close>

definition newError :: "jsstring \<Rightarrow> thrown" where
  "newError msg =
     ErrorObject msg (if msg = [] then js ''Error'' else js ''Error: '' @ msg)"

text \<open>\<^verbatim>\<open>a || b\<close> on an optional string: \<^verbatim>\<open>undefined\<close> and the empty string are falsy.\<close>

definition orElse :: "jsstring option \<Rightarrow> jsstring \<Rightarrow> jsstring" where
  "orElse a b = (case a of None \<Rightarrow> b | Some x \<Rightarrow> if x = [] then b else x)"

section \<open>The service module\<close>

type_synonym characters = "(jsstring \<times> jsstring) list"

record SceneGenerationResult =
  scenePrompt :: jsstring
  characterDescriptions :: characters

text \<open>
  The object \<^verbatim>\<open>JSON.parse\<close> returns, typed by the interface \<^verbatim>\<open>ApiResponse\<close>: every
  field is optional.
\<close>

record ApiResponse =
  api_scenePrompt :: "jsstring option"
  api_characterDescriptions :: "(jsstring \<times> jsstring) list option"
  api_error :: "jsstring option"

datatype aspect = Portrait_9_16 | Landscape_16_9

text \<open>
  The requests sent to the generative service. The long fixed instruction text of a
  request is left out: a request is identified by the parts that vary.
\<close>

datatype request =
    SceneRequest jsstring bool characters
  | ImageRequest jsstring aspect
  | VerseTextRequest jsstring
  | SpeechRequest jsstring jsstring

definition VERSE_NOT_FOUND :: jsstring where
  "VERSE_NOT_FOUND = js ''VERSE_NOT_FOUND''"

definition msg_invalid_format :: jsstring where
  "msg_invalid_format =
     js ''Falha ao processar a resposta da IA. O formato pode ser inv'' @ [225] @ js ''lido.''"

text \<open>\<^verbatim>\<open>isContinuation\<close> and \<^verbatim>\<open>existingCharsAsArray\<close> of \<^verbatim>\<open>generateImagePrompt\<close>.\<close>

definition isContinuation :: "characters option \<Rightarrow> bool" where
  "isContinuation existingCharacters =
     (case existingCharacters of None \<Rightarrow> False | Some cs \<Rightarrow> 0 < length cs)"

definition existingCharsAsArray :: "characters option \<Rightarrow> characters" where
  "existingCharsAsArray existingCharacters =
     (case existingCharacters of
        None \<Rightarrow> []
      | Some cs \<Rightarrow> if isContinuation existingCharacters then cs else [])"

definition sceneRequest :: "jsstring \<Rightarrow> characters option \<Rightarrow> request" where
  "sceneRequest bibleReference existingCharacters =
     SceneRequest bibleReference (isContinuation existingCharacters)
       (existingCharsAsArray existingCharacters)"

text \<open>
  A \<^verbatim>\<open>Record\<close> is a plain object, modelled by the list of its own properties in the
  order \<^verbatim>\<open>Object.entries\<close> lists them: first the names that are array indices (the
  decimal form of a number below \<open>2 ^ 32 - 1\<close>), by ascending number, then the other
  names in the order they were created. \<^verbatim>\<open>acc[name] = description\<close> overwrites a
  property that exists and keeps its place, creates one otherwise, and stores nothing
  when the name is \<^verbatim>\<open>__proto__\<close>: that assignment reaches the inherited setter, which
  ignores a string.
\<close>

definition isArrayIndex :: "jsstring \<Rightarrow> bool" where
  "isArrayIndex name \<longleftrightarrow>
     name \<noteq> [] \<and> list_all isDigit name \<and> (name = [48] \<or> hd name \<noteq> 48) \<and>
     parseInt name < 4294967295"

fun insertIndexed :: "jsstring \<Rightarrow> jsstring \<Rightarrow> characters \<Rightarrow> characters" where
  "insertIndexed name description [] = [(name, description)]"
| "insertIndexed name description ((k, d) # rest) =
     (if isArrayIndex k \<and> parseInt k < parseInt name
      then (k, d) # insertIndexed name description rest
      else (name, description) # (k, d) # rest)"

definition setProperty :: "jsstring \<Rightarrow> jsstring \<Rightarrow> characters \<Rightarrow> characters" where
  "setProperty name description acc =
     (if name = js ''__proto__'' then acc
      else (case map_of acc name of
              Some old \<Rightarrow> AList.update name description acc
            | None \<Rightarrow>
                if isArrayIndex name then insertIndexed name description acc
                else acc @ [(name, description)]))"

text \<open>The \<^verbatim>\<open>reduce\<close> that turns the array of characters into a \<^verbatim>\<open>Record\<close>.\<close>

definition characterDescriptionsMap :: "(jsstring \<times> jsstring) list \<Rightarrow> characters" where
  "characterDescriptionsMap chars =
     foldl (\<lambda>acc (name, description). setProperty name description acc) [] chars"

text \<open>
  \<^verbatim>\<open>generateImagePrompt\<close> after the request. The reply is either the value the client
  call (or reading the response text) threw, or the outcome of \<^verbatim>\<open>JSON.parse\<close> on the
  extracted text: \<open>None\<close> when it threw a syntax error. The inner \<^verbatim>\<open>catch\<close> lets only the
  verse-not-found error through; the missing-fields error and the syntax error both
  become the invalid-format error. The outer \<^verbatim>\<open>catch\<close> rethrows what it caught.
\<close>

definition generateImagePrompt ::
  "(thrown + ApiResponse option) \<Rightarrow> thrown + SceneGenerationResult" where
  "generateImagePrompt reply =
     (case reply of
        Inl err \<Rightarrow> Inl err
      | Inr None \<Rightarrow> Inl (newError msg_invalid_format)
      | Inr (Some parsedJson) \<Rightarrow>
          if api_error parsedJson = Some VERSE_NOT_FOUND then Inl (newError VERSE_NOT_FOUND)
          else (case (api_scenePrompt parsedJson, api_characterDescriptions parsedJson) of
                  (Some prompt, Some chars) \<Rightarrow>
                    if prompt = [] then Inl (newError msg_invalid_format)
                    else Inr \<lparr>scenePrompt = prompt,
                              characterDescriptions = characterDescriptionsMap chars\<rparr>
                | _ \<Rightarrow> Inl (newError msg_invalid_format)))"

definition STYLE_PROMPT_APPENDIX :: jsstring where
  "STYLE_PROMPT_APPENDIX =
     js '', no estilo de um desenho da Pixar, personagens expressivos, ilumina'' @ [231, 227] @
     js ''o cinematogr'' @ [225] @ js ''fica, 3D, 4K, alto detalhe''"

definition msg_no_image :: jsstring where
  "msg_no_image =
     js ''A imagem n'' @ [227] @ js ''o p'' @ [244] @ js ''de ser gerada. Isso pode ocorrer devido a filtros de seguran'' @
     [231] @ js ''a sobre o conte'' @ [250] @ js ''do da cena. Tente um vers'' @ [237] @
     js ''culo diferente ou uma nova cena com uma descri'' @ [231, 227] @
     js ''o menos expl'' @ [237] @ js ''cita.''"

definition imageRequest :: "jsstring \<Rightarrow> aspect \<Rightarrow> request" where
  "imageRequest prompt aspectRatio = ImageRequest (prompt @ STYLE_PROMPT_APPENDIX) aspectRatio"

text \<open>
  \<^verbatim>\<open>generateImage\<close> after the request: the reply is the thrown value or the optional
  array \<^verbatim>\<open>response.generatedImages\<close>, each image by its \<^verbatim>\<open>imageBytes\<close>.
\<close>

definition generateImage :: "(thrown + jsstring list option) \<Rightarrow> thrown + jsstring" where
  "generateImage reply =
     (case reply of
        Inl err \<Rightarrow> Inl err
      | Inr None \<Rightarrow> Inl (newError msg_no_image)
      | Inr (Some []) \<Rightarrow> Inl (newError msg_no_image)
      | Inr (Some (img # rest)) \<Rightarrow> Inr img)"

definition msg_empty_narration :: jsstring where
  "msg_empty_narration =
     js ''O texto para narra'' @ [231, 227] @ js ''o n'' @ [227] @ js ''o pode estar vazio.''"

definition msg_no_audio :: jsstring where
  "msg_no_audio = js ''A API n'' @ [227] @ js ''o retornou nenhum '' @ [225] @ js ''udio.''"

definition voiceName :: "jsstring \<Rightarrow> jsstring" where
  "voiceName voiceType = (if voiceType = js ''adulta'' then js ''Puck'' else js ''Kore'')"

definition promptForAudio :: "jsstring \<Rightarrow> jsstring \<Rightarrow> jsstring" where
  "promptForAudio textToNarrate voiceType =
     (if voiceType = js ''infantil''
      then js ''Narra'' @ [231, 227] @ js ''o em tom de crian'' @ [231] @
           js ''a, com uma voz doce e clara: '' @ textToNarrate
      else textToNarrate)"

text \<open>The requests \<^verbatim>\<open>generateSpeech\<close> sends: none when the text is empty.\<close>

definition speechRequests :: "jsstring \<Rightarrow> jsstring \<Rightarrow> request list" where
  "speechRequests textToNarrate voiceType =
     (if textToNarrate = [] then []
      else [SpeechRequest (promptForAudio textToNarrate voiceType) (voiceName voiceType)])"

text \<open>
  \<^verbatim>\<open>generateSpeech\<close>: the reply is the thrown value or the optional inline data of the
  first part of the first candidate.
\<close>

definition generateSpeech :: "jsstring \<Rightarrow> (thrown + jsstring option) \<Rightarrow> thrown + jsstring" where
  "generateSpeech textToNarrate reply =
     (if textToNarrate = [] then Inl (newError msg_empty_narration)
      else (case reply of
              Inl err \<Rightarrow> Inl err
            | Inr base64Audio \<Rightarrow>
                if orElse base64Audio [] = [] then Inl (newError msg_no_audio)
                else Inr (orElse base64Audio [])))"

text \<open>
  \<^verbatim>\<open>languageMap\<close> is an object literal. \<^verbatim>\<open>languageMap[language]\<close> finds its five own
  properties and, for any other key, the members every object inherits from
  \<^verbatim>\<open>Object.prototype\<close>. Those are functions (and, for \<^verbatim>\<open>__proto__\<close>, the prototype
  object): truthy values, listed here with the text a template literal makes of them.
\<close>

definition languageMap :: "(jsstring \<times> jsstring) list" where
  "languageMap =
     [(js ''pt-BR'', js ''Portugu'' @ [234] @ js ''s (Brasil)''),
      (js ''en-US'', js ''Ingl'' @ [234] @ js ''s (EUA)''),
      (js ''es-ES'', js ''Espanhol (Espanha)''),
      (js ''fr-FR'', js ''Franc'' @ [234] @ js ''s (Fran'' @ [231] @ js ''a)''),
      (js ''de-DE'', js ''Alem'' @ [227] @ js ''o (Alemanha)'')]"

definition nativeFunction :: "jsstring \<Rightarrow> jsstring" where
  "nativeFunction name = js ''function '' @ name @ js ''() { [native code] }''"

definition Object_prototype :: "(jsstring \<times> jsstring) list" where
  "Object_prototype =
     [(js ''constructor'', nativeFunction (js ''Object'')),
      (js ''__defineGetter__'', nativeFunction (js ''__defineGetter__'')),
      (js ''__defineSetter__'', nativeFunction (js ''__defineSetter__'')),
      (js ''hasOwnProperty'', nativeFunction (js ''hasOwnProperty'')),
      (js ''__lookupGetter__'', nativeFunction (js ''__lookupGetter__'')),
      (js ''__lookupSetter__'', nativeFunction (js ''__lookupSetter__'')),
      (js ''isPrototypeOf'', nativeFunction (js ''isPrototypeOf'')),
      (js ''propertyIsEnumerable'', nativeFunction (js ''propertyIsEnumerable'')),
      (js ''toString'', nativeFunction (js ''toString'')),
      (js ''valueOf'', nativeFunction (js ''valueOf'')),
      (js ''__proto__'', js ''[object Object]''),
      (js ''toLocaleString'', nativeFunction (js ''toLocaleString''))]"

definition languageName :: "jsstring \<Rightarrow> jsstring" where
  "languageName language =
     (case map_of languageMap language of
        Some name \<Rightarrow> name
      | None \<Rightarrow>
          (case map_of Object_prototype language of
             Some inherited \<Rightarrow> inherited
           | None \<Rightarrow> js ''Portugu'' @ [234] @ js ''s (Brasil)''))"

definition textPrompt :: "jsstring \<Rightarrow> jsstring \<Rightarrow> jsstring" where
  "textPrompt bibleReference language =
     js ''Forne'' @ [231] @ js ''a o texto completo de '' @ [39] @ bibleReference @ [39] @
     js '' da B'' @ [237] @ js ''blia no idioma '' @ languageName language @
     js ''. Responda apenas com o texto do vers'' @ [237] @ js ''culo, sem introdu'' @
     [231, 245] @ js ''es ou explica'' @ [231, 245] @ js ''es adicionais.''"

definition msg_no_verse_text :: jsstring where
  "msg_no_verse_text =
     js ''N'' @ [227] @ js ''o foi poss'' @ [237] @ js ''vel obter o texto do vers'' @ [237] @ js ''culo.''"

text \<open>
  \<^verbatim>\<open>getVerseText\<close>: the request it sends, and what it returns or throws when the reply
  is the thrown value or the text of the response.
\<close>

definition getVerseText ::
  "jsstring \<Rightarrow> jsstring \<Rightarrow> (thrown + jsstring) \<Rightarrow> request \<times> (thrown + jsstring)" where
  "getVerseText bibleReference language reply =
     (VerseTextRequest (textPrompt bibleReference language),
      (case reply of
         Inl err \<Rightarrow> Inl err
       | Inr bibleText \<Rightarrow>
           if trim bibleText = [] then Inl (newError msg_no_verse_text)
           else Inr (trim bibleText)))"

section \<open>The WAV container\<close>

type_synonym byte = "8 word"

text \<open>
  A \<^verbatim>\<open>DataView\<close> over a fresh \<^verbatim>\<open>ArrayBuffer\<close> is the list of its bytes. A setter throws
  a \<^verbatim>\<open>RangeError\<close> when the bytes it writes do not lie inside the view; it stores the
  value modulo the width of the field, low byte first when \<^verbatim>\<open>littleEndian\<close> is true.
\<close>

definition rangeError :: thrown where
  "rangeError =
     ErrorObject (js ''Offset is outside the bounds of the DataView'')
       (js ''RangeError: Offset is outside the bounds of the DataView'')"

definition andThen :: "thrown + 'a \<Rightarrow> ('a \<Rightarrow> thrown + 'b) \<Rightarrow> thrown + 'b" where
  "andThen r f = (case r of Inl err \<Rightarrow> Inl err | Inr x \<Rightarrow> f x)"

definition setUint8 :: "byte list \<Rightarrow> nat \<Rightarrow> nat \<Rightarrow> thrown + byte list" where
  "setUint8 view byteOffset v =
     (if byteOffset + 1 \<le> length view
      then Inr (view[byteOffset := word_of_nat v])
      else Inl rangeError)"

definition setUint16 :: "byte list \<Rightarrow> nat \<Rightarrow> nat \<Rightarrow> thrown + byte list" where
  "setUint16 view byteOffset v =
     (if byteOffset + 2 \<le> length view
      then Inr (view[byteOffset := word_of_nat v,
                     byteOffset + 1 := word_of_nat (v div 256)])
      else Inl rangeError)"

definition setUint32 :: "byte list \<Rightarrow> nat \<Rightarrow> nat \<Rightarrow> thrown + byte list" where
  "setUint32 view byteOffset v =
     (if byteOffset + 4 \<le> length view
      then Inr (view[byteOffset := word_of_nat v,
                     byteOffset + 1 := word_of_nat (v div 256),
                     byteOffset + 2 := word_of_nat (v div 65536),
                     byteOffset + 3 := word_of_nat (v div 16777216)])
      else Inl rangeError)"

function writeString_loop :: "byte list \<Rightarrow> nat \<Rightarrow> jsstring \<Rightarrow> nat \<Rightarrow> thrown + byte list" where
  "writeString_loop view offset string i =
     (if i < length string
      then andThen (setUint8 view (offset + i) (string ! i))
             (\<lambda>view'. writeString_loop view' offset string (i + 1))
      else Inr view)"
  by pat_completeness auto
termination
  by (relation "measure (\<lambda>(view, offset, string, i). length string - i)") auto

definition writeString :: "byte list \<Rightarrow> nat \<Rightarrow> jsstring \<Rightarrow> thrown + byte list" where
  "writeString view offset string = writeString_loop view offset string 0"

text \<open>The last loop of \<^verbatim>\<open>createWavBlob\<close>: the PCM bytes, from offset 44 on.\<close>

function writePcm_loop :: "byte list \<Rightarrow> byte list \<Rightarrow> nat \<Rightarrow> thrown + byte list" where
  "writePcm_loop view pcmData i =
     (if i < length pcmData
      then andThen (setUint8 view (44 + i) (unat (pcmData ! i)))
             (\<lambda>view'. writePcm_loop view' pcmData (i + 1))
      else Inr view)"
  by pat_completeness auto
termination
  by (relation "measure (\<lambda>(view, pcmData, i). length pcmData - i)") auto

record blob =
  blob_bytes :: "byte list"
  blob_type :: jsstring

text \<open>
  \<^verbatim>\<open>createWavBlob\<close> from the byte array \<^verbatim>\<open>pcmData\<close> on: the header fields in the order
  the source writes them, then the samples.
\<close>

definition wavBlobOfPcm :: "byte list \<Rightarrow> thrown + blob" where
  "wavBlobOfPcm pcmData =
     (let sampleRate = 24000;
          numChannels = 1;
          bitsPerSample = 16;
          dataSize = length pcmData;
          view0 = replicate (44 + dataSize) (0 :: byte)
      in
      andThen (writeString view0 0 (js ''RIFF'')) (\<lambda>view.
      andThen (setUint32 view 4 (36 + dataSize)) (\<lambda>view.
      andThen (writeString view 8 (js ''WAVE'')) (\<lambda>view.
      andThen (writeString view 12 (js ''fmt '')) (\<lambda>view.
      andThen (setUint32 view 16 16) (\<lambda>view.
      andThen (setUint16 view 20 1) (\<lambda>view.
      andThen (setUint16 view 22 numChannels) (\<lambda>view.
      andThen (setUint32 view 24 sampleRate) (\<lambda>view.
      andThen (setUint32 view 28 (sampleRate * numChannels * (bitsPerSample div 8))) (\<lambda>view.
      andThen (setUint16 view 32 (numChannels * (bitsPerSample div 8))) (\<lambda>view.
      andThen (setUint16 view 34 bitsPerSample) (\<lambda>view.
      andThen (writeString view 36 (js ''data'')) (\<lambda>view.
      andThen (setUint32 view 40 dataSize) (\<lambda>view.
      andThen (writePcm_loop view pcmData 0) (\<lambda>view.
      Inr \<lparr>blob_bytes = view, blob_type = js ''audio/wav''\<rparr>)))))))))))))))"

text \<open>
  The whole of \<^verbatim>\<open>createWavBlob\<close>. The platform's base64 decoder \<^verbatim>\<open>atob\<close> is a parameter:
  it throws or returns a binary string, whose code units the loop copies into a
  \<^verbatim>\<open>Uint8Array\<close>.
\<close>

definition createWavBlob :: "(jsstring \<Rightarrow> thrown + jsstring) \<Rightarrow> jsstring \<Rightarrow> thrown + blob" where
  "createWavBlob atob base64 =
     andThen (atob base64) (\<lambda>binaryString. wavBlobOfPcm (map word_of_nat binaryString))"

text \<open>
  The little-endian getters of a \<^verbatim>\<open>DataView\<close>, to read a field back, and the little-endian
  bytes of a 16-bit and of a 32-bit field.
\<close>

definition getUint16 :: "byte list \<Rightarrow> nat \<Rightarrow> nat" where
  "getUint16 view byteOffset = unat (view ! byteOffset) + 256 * unat (view ! (byteOffset + 1))"

definition getUint32 :: "byte list \<Rightarrow> nat \<Rightarrow> nat" where
  "getUint32 view byteOffset =
     unat (view ! byteOffset) + 256 * unat (view ! (byteOffset + 1)) +
     65536 * unat (view ! (byteOffset + 2)) + 16777216 * unat (view ! (byteOffset + 3))"

definition le16 :: "nat \<Rightarrow> byte list" where
  "le16 v = [word_of_nat v, word_of_nat (v div 256)]"

definition le32 :: "nat \<Rightarrow> byte list" where
  "le32 v = [word_of_nat v, word_of_nat (v div 256), word_of_nat (v div 65536),
             word_of_nat (v div 16777216)]"

text \<open>
  The header as the specification describes it, field by field, to compare with what
  \<^verbatim>\<open>createWavBlob\<close> writes: mono, 24000 Hz, 16 bits, so 48000 bytes a second in blocks
  of 2.
\<close>

definition canonical_wav_header :: "nat \<Rightarrow> byte list" where
  "canonical_wav_header dataSize =
     map word_of_nat (js ''RIFF'') @ le32 (36 + dataSize) @ map word_of_nat (js ''WAVE'') @
     map word_of_nat (js ''fmt '') @ le32 16 @ le16 1 @ le16 1 @ le32 24000 @ le32 48000 @
     le16 2 @ le16 16 @ map word_of_nat (js ''data'') @ le32 dataSize"

section \<open>The component\<close>

text \<open>
  A blob URL is modelled by the number of its entry in the browser's blob URL store. The
  string is never empty, so \<^verbatim>\<open>if (generatedAudioUrl)\<close> asks whether the state holds one.
\<close>

datatype url = BlobUrl nat

text \<open>The state variables of \<^verbatim>\<open>ImageGenerator\<close>, one field for each \<^verbatim>\<open>useState\<close>.\<close>

record component_state =
  bibleReference :: jsstring
  promptText :: jsstring
  characters :: "characters option"
  isSequenceActive :: bool
  isPromptLoading :: bool
  promptError :: "jsstring option"
  isImageLoading :: bool
  generatedImage :: "jsstring option"
  imageError :: "jsstring option"
  aspectRatio :: aspect
  language :: jsstring
  voiceType :: jsstring
  isAudioLoading :: bool
  audioError :: "jsstring option"
  generatedAudioUrl :: "url option"
  narratedText :: "jsstring option"
  textForNarration :: jsstring
  isFetchingVerse :: bool

definition initial_state :: component_state where
  "initial_state =
     \<lparr>bibleReference = [], promptText = [], characters = None, isSequenceActive = False,
      isPromptLoading = False, promptError = None, isImageLoading = False,
      generatedImage = None, imageError = None, aspectRatio = Portrait_9_16,
      language = js ''pt-BR'', voiceType = js ''adulta'', isAudioLoading = False,
      audioError = None, generatedAudioUrl = None, narratedText = None,
      textForNarration = [], isFetchingVerse = False\<rparr>"

text \<open>What a handler does to the world outside the state variables.\<close>

datatype effect =
    Request request
  | RevokeObjectURL url
  | CreateObjectURL url

definition msg_server_retry_later :: jsstring where
  "msg_server_retry_later =
     js ''Ocorreu um erro de comunica'' @ [231, 227] @
     js ''o com o servidor. Por favor, tente novamente em alguns instantes.''"

definition msg_server_retry :: jsstring where
  "msg_server_retry =
     js ''Ocorreu um erro de comunica'' @ [231, 227] @
     js ''o com o servidor. Por favor, tente novamente.''"

definition msg_prompt_failed :: jsstring where
  "msg_prompt_failed =
     js ''Ocorreu um erro ao gerar o prompt. Tente um vers'' @ [237] @ js ''culo diferente.''"

definition msg_image_failed :: jsstring where
  "msg_image_failed = js ''Ocorreu um erro ao gerar a imagem. Por favor, tente novamente.''"

definition msg_chapter_ended :: jsstring where
  "msg_chapter_ended = js ''Fim do cap'' @ [237] @ js ''tulo. Inicie uma nova cena.''"

definition msg_next_verse_failed :: jsstring where
  "msg_next_verse_failed =
     js ''Falha ao gerar o pr'' @ [243] @ js ''ximo vers'' @ [237] @ js ''culo.''"

definition msg_fetch_failed :: jsstring where
  "msg_fetch_failed =
     js ''Ocorreu um erro ao buscar o texto. Verifique a refer'' @ [234] @
     js ''ncia ou tente novamente.''"

definition msg_audio_failed :: jsstring where
  "msg_audio_failed =
     js ''Ocorreu um erro ao gerar o '' @ [225] @ js ''udio. Por favor, tente novamente.''"

text \<open>
  \<^verbatim>\<open>err.toString().includes('500') || err.toString().includes('Rpc failed')\<close>, the test
  every \<^verbatim>\<open>catch\<close> block of the component makes.
\<close>

definition isServerError :: "thrown \<Rightarrow> bool" where
  "isServerError err \<longleftrightarrow>
     js_includes (toString err) (js ''500'') \<or> js_includes (toString err) (js ''Rpc failed'')"

definition dataUrl :: "jsstring \<Rightarrow> jsstring" where
  "dataUrl imageBase64 = js ''data:image/jpeg;base64,'' @ imageBase64"

definition handleStartNew :: "component_state \<Rightarrow> component_state" where
  "handleStartNew s =
     s\<lparr>isSequenceActive := False, characters := None, generatedImage := None,
       imageError := None, promptError := None, promptText := [], bibleReference := [],
       generatedAudioUrl := None, textForNarration := [], narratedText := None\<rparr>"

definition handleGeneratePrompt ::
  "component_state \<Rightarrow> (thrown + ApiResponse option) \<Rightarrow> component_state \<times> effect list" where
  "handleGeneratePrompt s reply =
     (if trim (bibleReference s) = [] then (s, [])
      else
        let s1 = s\<lparr>isSequenceActive := False, characters := None, generatedImage := None,
                   imageError := None, promptError := None, promptText := [],
                   generatedAudioUrl := None, textForNarration := [], narratedText := None,
                   isPromptLoading := True\<rparr>;
            s2 = (case generateImagePrompt reply of
                    Inr result \<Rightarrow>
                      s1\<lparr>promptText := scenePrompt result,
                         characters := Some (characterDescriptions result)\<rparr>
                  | Inl err \<Rightarrow>
                      if isServerError err
                      then s1\<lparr>promptError := Some msg_server_retry_later\<rparr>
                      else s1\<lparr>promptError := Some (orElse (message err) msg_prompt_failed)\<rparr>)
        in (s2\<lparr>isPromptLoading := False\<rparr>, [Request (sceneRequest (bibleReference s) None)]))"

definition handleGenerateImage ::
  "component_state \<Rightarrow> (thrown + jsstring list option) \<Rightarrow> component_state \<times> effect list" where
  "handleGenerateImage s reply =
     (if trim (promptText s) = [] \<or> isImageLoading s then (s, [])
      else
        let s1 = s\<lparr>isImageLoading := True, imageError := None, generatedImage := None\<rparr>;
            s2 = (case generateImage reply of
                    Inr imageBase64 \<Rightarrow>
                      s1\<lparr>generatedImage := Some (dataUrl imageBase64),
                         isSequenceActive := True\<rparr>
                  | Inl err \<Rightarrow>
                      if isServerError err
                      then s1\<lparr>imageError := Some msg_server_retry_later\<rparr>
                      else s1\<lparr>imageError := Some (orElse (message err) msg_image_failed)\<rparr>)
        in (s2\<lparr>isImageLoading := False\<rparr>,
            [Request (imageRequest (promptText s) (aspectRatio s))]))"

text \<open>
  The \<^verbatim>\<open>catch\<close> block of \<^verbatim>\<open>handleGenerateNextVerse\<close>, on the state the \<^verbatim>\<open>try\<close> block had
  reached when the error was thrown.
\<close>

definition nextVerse_catch :: "jsstring \<Rightarrow> component_state \<Rightarrow> thrown \<Rightarrow> component_state" where
  "nextVerse_catch lastValidRef s err =
     (if instanceofError err \<and>
         (case message err of Some m \<Rightarrow> js_includes m VERSE_NOT_FOUND | None \<Rightarrow> False)
      then s\<lparr>imageError := Some msg_chapter_ended, isSequenceActive := False,
             bibleReference := lastValidRef\<rparr>
      else if isServerError err
      then s\<lparr>imageError := Some msg_server_retry_later, bibleReference := lastValidRef\<rparr>
      else s\<lparr>imageError := Some (orElse (message err) msg_next_verse_failed),
             bibleReference := lastValidRef\<rparr>)"

definition handleGenerateNextVerse ::
  "component_state \<Rightarrow> (thrown + ApiResponse option) \<Rightarrow> (thrown + jsstring list option) \<Rightarrow>
     component_state \<times> effect list" where
  "handleGenerateNextVerse s sceneReply imageReply =
     (let nextVerseRef = getNextVerseRef (bibleReference s) in
      if nextVerseRef = [] \<or> characters s = None then (s, [])
      else
        let s1 = s\<lparr>isImageLoading := True, imageError := None, promptError := None\<rparr>;
            lastValidRef = bibleReference s;
            s2 = s1\<lparr>bibleReference := nextVerseRef\<rparr>;
            sceneCall = Request (sceneRequest nextVerseRef (characters s))
        in (case generateImagePrompt sceneReply of
              Inl err \<Rightarrow>
                ((nextVerse_catch lastValidRef s2 err)\<lparr>isImageLoading := False\<rparr>, [sceneCall])
            | Inr result \<Rightarrow>
                let s3 = s2\<lparr>promptText := scenePrompt result,
                           characters := Some (characterDescriptions result)\<rparr>;
                    imageCall = Request (imageRequest (scenePrompt result) (aspectRatio s))
                in (case generateImage imageReply of
                      Inl err \<Rightarrow>
                        ((nextVerse_catch lastValidRef s3 err)\<lparr>isImageLoading := False\<rparr>,
                         [sceneCall, imageCall])
                    | Inr imageBase64 \<Rightarrow>
                        (s3\<lparr>generatedImage := Some (dataUrl imageBase64),
                            isSequenceActive := True, isImageLoading := False\<rparr>,
                         [sceneCall, imageCall]))))"

definition handleFetchVerseText ::
  "component_state \<Rightarrow> (thrown + jsstring) \<Rightarrow> component_state \<times> effect list" where
  "handleFetchVerseText s reply =
     (if trim (bibleReference s) = [] \<or> isFetchingVerse s then (s, [])
      else
        let s1 = s\<lparr>isFetchingVerse := True, audioError := None, textForNarration := []\<rparr>;
            (sent, outcome) = getVerseText (bibleReference s) (language s) reply;
            s2 = (case outcome of
                    Inr verseText \<Rightarrow> s1\<lparr>textForNarration := verseText\<rparr>
                  | Inl err \<Rightarrow>
                      if isServerError err
                      then s1\<lparr>audioError := Some msg_server_retry\<rparr>
                      else s1\<lparr>audioError := Some msg_fetch_failed\<rparr>)
        in (s2\<lparr>isFetchingVerse := False\<rparr>, [Request sent]))"

text \<open>
  \<^verbatim>\<open>handleGenerateAudioClick\<close> in its two parts: what runs before the \<^verbatim>\<open>await\<close>, and
  what runs when the promise settles. The second part reads the text and the voice from
  the closure, that is from the state \<open>s\<close> the handler was called in, and gets the URL that
  \<^verbatim>\<open>URL.createObjectURL\<close> hands out.
\<close>

definition audioClick_rejected :: "component_state \<Rightarrow> bool" where
  "audioClick_rejected s \<longleftrightarrow> trim (textForNarration s) = [] \<or> isAudioLoading s"

definition audioClick_begin :: "component_state \<Rightarrow> component_state \<times> effect list" where
  "audioClick_begin s =
     (s\<lparr>isAudioLoading := True, audioError := None, generatedAudioUrl := None,
        narratedText := None\<rparr>,
      (case generatedAudioUrl s of Some u \<Rightarrow> [RevokeObjectURL u] | None \<Rightarrow> []) @
      map Request (speechRequests (textForNarration s) (voiceType s)))"

definition audioClick_settle ::
  "component_state \<Rightarrow> component_state \<Rightarrow> (jsstring \<Rightarrow> thrown + jsstring) \<Rightarrow>
     (thrown + jsstring option) \<Rightarrow> url \<Rightarrow> component_state \<times> effect list" where
  "audioClick_settle s s1 atob reply fresh =
     (case andThen (generateSpeech (textForNarration s) reply) (createWavBlob atob) of
        Inr audioBlob \<Rightarrow>
          (s1\<lparr>generatedAudioUrl := Some fresh, narratedText := Some (textForNarration s),
              isAudioLoading := False\<rparr>,
           [CreateObjectURL fresh])
      | Inl err \<Rightarrow>
          ((if isServerError err
            then s1\<lparr>audioError := Some msg_server_retry\<rparr>
            else s1\<lparr>audioError := Some msg_audio_failed\<rparr>)\<lparr>isAudioLoading := False\<rparr>,
           []))"

definition handleGenerateAudioClick ::
  "component_state \<Rightarrow> (jsstring \<Rightarrow> thrown + jsstring) \<Rightarrow> (thrown + jsstring option) \<Rightarrow> url \<Rightarrow>
     component_state \<times> effect list" where
  "handleGenerateAudioClick s atob reply fresh =
     (if audioClick_rejected s then (s, [])
      else
        let (s1, effects1) = audioClick_begin s;
            (s2, effects2) = audioClick_settle s s1 atob reply fresh
        in (s2, effects1 @ effects2))"

definition isAnyLoading :: "component_state \<Rightarrow> bool" where
  "isAnyLoading s \<longleftrightarrow>
     isPromptLoading s \<or> isImageLoading s \<or> isAudioLoading s \<or> isFetchingVerse s"

text \<open>
  The \<^verbatim>\<open>disabled\<close> attributes of the five buttons that start an operation. The button
  for the next verse is rendered only while an image is shown and the sequence is active.
\<close>

definition promptButton_disabled :: "component_state \<Rightarrow> bool" where
  "promptButton_disabled s \<longleftrightarrow>
     trim (bibleReference s) = [] \<or> isAnyLoading s \<or> isSequenceActive s"

definition imageButton_disabled :: "component_state \<Rightarrow> bool" where
  "imageButton_disabled s \<longleftrightarrow>
     trim (promptText s) = [] \<or> isAnyLoading s \<or> isSequenceActive s"

definition nextVerseButton_disabled :: "component_state \<Rightarrow> bool" where
  "nextVerseButton_disabled s \<longleftrightarrow> isAnyLoading s"

definition fetchVerseButton_disabled :: "component_state \<Rightarrow> bool" where
  "fetchVerseButton_disabled s \<longleftrightarrow> trim (bibleReference s) = [] \<or> isAnyLoading s"

definition audioButton_disabled :: "component_state \<Rightarrow> bool" where
  "audioButton_disabled s \<longleftrightarrow> trim (textForNarration s) = [] \<or> isAnyLoading s"

section \<open>Example inputs\<close>

definition verse_not_found_reply :: "thrown + ApiResponse option" where
  "verse_not_found_reply =
     Inr (Some \<lparr>api_scenePrompt = None, api_characterDescriptions = None,
                api_error = Some VERSE_NOT_FOUND\<rparr>)"

definition scene_ok_reply :: "thrown + ApiResponse option" where
  "scene_ok_reply =
     Inr (Some \<lparr>api_scenePrompt = Some (js ''dawn''),
                api_characterDescriptions = Some [(js ''Eva'', js ''tall'')],
                api_error = None\<rparr>)"

text \<open>A sequence in progress at verse 5, with one character and an image on display.\<close>

definition sequence_state :: component_state where
  "sequence_state =
     initial_state\<lparr>bibleReference := js ''G 1:5'', promptText := js ''light'',
       characters := Some [(js ''Adam'', js ''dark hair'')], isSequenceActive := True,
       generatedImage := Some (dataUrl (js ''AAAA''))\<rparr>"

text \<open>A fresh component in which a reference to a verse that does not exist was typed.\<close>

definition typed_reference_state :: component_state where
  "typed_reference_state = initial_state\<lparr>bibleReference := js ''G 1:99''\<rparr>"

text \<open>
  The state after the chapter has ended: the sequence is inactive, the last image and the
  last prompt are still there, so the image button is enabled again.
\<close>

definition chapter_ended_state :: component_state where
  "chapter_ended_state = sequence_state\<lparr>isSequenceActive := False\<rparr>"

text \<open>An image request is in flight while the reference field still holds a reference.\<close>

definition image_loading_state :: component_state where
  "image_loading_state = chapter_ended_state\<lparr>isImageLoading := True\<rparr>"

section \<open>The mounted component and the blob URL store\<close>

text \<open>
  The effect of the component is
  \<^verbatim>\<open>useEffect(() => () => { if (generatedAudioUrl) URL.revokeObjectURL(generatedAudioUrl) }, [generatedAudioUrl])\<close>.
  After a render in which \<^verbatim>\<open>generatedAudioUrl\<close> differs from the render before, React
  runs the cleanup the earlier render registered, which revokes the URL of that
  earlier render; when the component is unmounted React runs the cleanup of the last
  render.
\<close>

definition effectCleanup :: "url option \<Rightarrow> effect list" where
  "effectCleanup captured =
     (case captured of Some u \<Rightarrow> [RevokeObjectURL u] | None \<Rightarrow> [])"

definition rerender :: "component_state \<Rightarrow> component_state \<Rightarrow> effect list" where
  "rerender earlier later =
     (if generatedAudioUrl earlier \<noteq> generatedAudioUrl later
      then effectCleanup (generatedAudioUrl earlier) else [])"

text \<open>
  The page: the state of the component, everything it has done so far, in order, and
  the number of URLs \<^verbatim>\<open>URL.createObjectURL\<close> has handed out. The next URL is a new one.
\<close>

record page =
  ui :: component_state
  trace :: "effect list"
  created :: nat

definition mounted :: page where
  "mounted = \<lparr>ui = initial_state, trace = [], created = 0\<rparr>"

datatype event =
    ChangeBibleReference jsstring
  | ChangePromptText jsstring
  | ChangeTextForNarration jsstring
  | ChangeVoiceType jsstring
  | ClickStartNew
  | ClickGeneratePrompt "thrown + ApiResponse option"
  | ClickGenerateImage "thrown + jsstring list option"
  | ClickNextVerse "thrown + ApiResponse option" "thrown + jsstring list option"
  | ClickFetchVerseText "thrown + jsstring"
  | ClickGenerateAudio "thrown + jsstring option"

text \<open>A handler that runs in one piece: its effects, then the render of the new state.\<close>

definition commit :: "page \<Rightarrow> component_state \<times> effect list \<Rightarrow> page" where
  "commit p r =
     p\<lparr>ui := fst r, trace := trace p @ snd r @ rerender (ui p) (fst r)\<rparr>"

text \<open>
  The audio handler renders twice: once with the state it sets before the \<^verbatim>\<open>await\<close>,
  once with the state it sets when the promise has settled.
\<close>

definition clickGenerateAudio ::
  "(jsstring \<Rightarrow> thrown + jsstring) \<Rightarrow> page \<Rightarrow> (thrown + jsstring option) \<Rightarrow> page" where
  "clickGenerateAudio atob p reply =
     (if audioClick_rejected (ui p) then p
      else
        let (s1, effects1) = audioClick_begin (ui p);
            (s2, effects2) = audioClick_settle (ui p) s1 atob reply (BlobUrl (created p))
        in p\<lparr>ui := s2,
             trace := trace p @ effects1 @ rerender (ui p) s1 @ effects2 @ rerender s1 s2,
             created := created p + length effects2\<rparr>)"

fun step :: "(jsstring \<Rightarrow> thrown + jsstring) \<Rightarrow> page \<Rightarrow> event \<Rightarrow> page" where
  "step atob p (ChangeBibleReference v) = commit p ((ui p)\<lparr>bibleReference := v\<rparr>, [])"
| "step atob p (ChangePromptText v) = commit p ((ui p)\<lparr>promptText := v\<rparr>, [])"
| "step atob p (ChangeTextForNarration v) = commit p ((ui p)\<lparr>textForNarration := v\<rparr>, [])"
| "step atob p (ChangeVoiceType v) = commit p ((ui p)\<lparr>voiceType := v\<rparr>, [])"
| "step atob p ClickStartNew = commit p (handleStartNew (ui p), [])"
| "step atob p (ClickGeneratePrompt reply) = commit p (handleGeneratePrompt (ui p) reply)"
| "step atob p (ClickGenerateImage reply) = commit p (handleGenerateImage (ui p) reply)"
| "step atob p (ClickNextVerse sceneReply imageReply) =
     commit p (handleGenerateNextVerse (ui p) sceneReply imageReply)"
| "step atob p (ClickFetchVerseText reply) = commit p (handleFetchVerseText (ui p) reply)"
| "step atob p (ClickGenerateAudio reply) = clickGenerateAudio atob p reply"

definition run :: "(jsstring \<Rightarrow> thrown + jsstring) \<Rightarrow> event list \<Rightarrow> page \<Rightarrow> page" where
  "run atob events p = foldl (step atob) p events"

definition unmount :: "page \<Rightarrow> page" where
  "unmount p = p\<lparr>trace := trace p @ effectCleanup (generatedAudioUrl (ui p))\<rparr>"

text \<open>How often a URL has been revoked, and whether it has been handed out.\<close>

definition releases :: "page \<Rightarrow> url \<Rightarrow> nat" where
  "releases p u = count_list (trace p) (RevokeObjectURL u)"

text \<open>Two narrations, each with a reply that carries audio, and a decoder that accepts it.\<close>

definition atob_ok :: "jsstring \<Rightarrow> thrown + jsstring" where
  "atob_ok base64 = Inr [0, 0]"

definition two_narrations :: "event list" where
  "two_narrations =
     [ChangeTextForNarration (js ''a''), ClickGenerateAudio (Inr (Some (js ''AAA=''))),
      ChangeTextForNarration (js ''b''), ClickGenerateAudio (Inr (Some (js ''AAA='')))]"

text \<open>
  What holds of the page between two events: the URL the state holds has been handed out
  and not revoked; every other URL handed out has been revoked, once or twice; no URL
  has been revoked that was never handed out.
\<close>

definition page_ok :: "page \<Rightarrow> bool" where
  "page_ok p \<longleftrightarrow>
     (\<forall>n. generatedAudioUrl (ui p) = Some (BlobUrl n) \<longrightarrow>
        n < created p \<and> releases p (BlobUrl n) = 0) \<and>
     (\<forall>n. n < created p \<longrightarrow> generatedAudioUrl (ui p) \<noteq> Some (BlobUrl n) \<longrightarrow>
        1 \<le> releases p (BlobUrl n) \<and> releases p (BlobUrl n) \<le> 2) \<and>
     (\<forall>n. created p \<le> n \<longrightarrow> releases p (BlobUrl n) = 0)"

section \<open>Facts about the example inputs\<close>

lemmas parse_eval =
  getNextVerseRef_def parseBibleRef_def regex_match_def trim_def isWhiteSpace_def
  isLineTerminator_def match_at_def match_tail_def isDigit_def parseInt_def formatBibleRef_def

lemma next_ref_example: "getNextVerseRef (js ''G 1:5'') = js ''G 1:6''"
  by (simp add: parse_eval)

lemma sequence_state_ref: "bibleReference sequence_state = js ''G 1:5''"
  by (simp add: sequence_state_def initial_state_def)

lemma sequence_state_next: "getNextVerseRef (bibleReference sequence_state) = js ''G 1:6''"
  unfolding sequence_state_ref by (rule next_ref_example)

lemma sequence_state_next_neq:
  "getNextVerseRef (bibleReference sequence_state) \<noteq> bibleReference sequence_state"
  by (subst sequence_state_next, subst sequence_state_ref) simp

lemma sequence_state_next_nonempty: "getNextVerseRef (bibleReference sequence_state) \<noteq> []"
  by (subst sequence_state_next) simp

lemma sequence_state_characters:
  "characters sequence_state = Some [(js ''Adam'', js ''dark hair'')]"
  by (simp add: sequence_state_def initial_state_def)

lemma verse_not_found_thrown:
  "generateImagePrompt verse_not_found_reply = Inl (newError VERSE_NOT_FOUND)"
  by (simp add: generateImagePrompt_def verse_not_found_reply_def)

lemma scene_ok_result:
  "generateImagePrompt scene_ok_reply =
     Inr \<lparr>scenePrompt = js ''dawn'', characterDescriptions = [(js ''Eva'', js ''tall'')]\<rparr>"
  by (simp add: generateImagePrompt_def scene_ok_reply_def VERSE_NOT_FOUND_def
      characterDescriptionsMap_def setProperty_def isArrayIndex_def isDigit_def)

lemma image_ok_result: "generateImage (Inr (Some [js ''BBBB''])) = Inr (js ''BBBB'')"
  by (simp add: generateImage_def)

lemma no_image_thrown: "generateImage (Inr None) = Inl (newError msg_no_image)"
  by (simp add: generateImage_def)

section \<open>Advancing the sequence\<close>

lemma nextVerse_catch_reference [simp]:
  "bibleReference (nextVerse_catch lastValidRef s err) = lastValidRef"
  by (simp add: nextVerse_catch_def)

lemma nextVerse_catch_characters [simp]:
  "characters (nextVerse_catch lastValidRef s err) = characters s"
  by (simp add: nextVerse_catch_def)

text \<open>
  Claim C1. Whenever the scene-description call or the image call of
  \<^verbatim>\<open>handleGenerateNextVerse\<close> fails (the verse-not-found error is one such failure), the
  reference after the handler is the reference before it. The reference differs
  afterwards only when both calls succeeded, and then it is the next verse.
\<close>

theorem advanceSequence_reference:
  "(isl (generateImagePrompt sceneReply) \<or> isl (generateImage imageReply) \<longrightarrow>
      bibleReference (fst (handleGenerateNextVerse s sceneReply imageReply)) = bibleReference s) \<and>
   (bibleReference (fst (handleGenerateNextVerse s sceneReply imageReply)) \<noteq> bibleReference s \<longrightarrow>
      \<not> isl (generateImagePrompt sceneReply) \<and> \<not> isl (generateImage imageReply) \<and>
      bibleReference (fst (handleGenerateNextVerse s sceneReply imageReply)) =
        getNextVerseRef (bibleReference s))"
  by (auto simp: handleGenerateNextVerse_def Let_def split: sum.splits)

theorem advanceSequence_reference_witness:
  "isl (generateImagePrompt verse_not_found_reply) \<and>
   bibleReference (fst (handleGenerateNextVerse sequence_state verse_not_found_reply (Inr None))) =
     bibleReference sequence_state \<and>
   bibleReference
     (fst (handleGenerateNextVerse sequence_state scene_ok_reply (Inr (Some [js ''BBBB''])))) =
     getNextVerseRef (bibleReference sequence_state) \<and>
   getNextVerseRef (bibleReference sequence_state) \<noteq> bibleReference sequence_state"
proof -
  have a: "isl (generateImagePrompt verse_not_found_reply)"
    by (simp add: verse_not_found_thrown)
  have c: "bibleReference
      (fst (handleGenerateNextVerse sequence_state scene_ok_reply (Inr (Some [js ''BBBB''])))) \<noteq>
      bibleReference sequence_state"
    unfolding handleGenerateNextVerse_def Let_def scene_ok_result image_ok_result
    using sequence_state_next_neq sequence_state_next_nonempty
    by (simp add: sequence_state_characters)
  from a advanceSequence_reference [of verse_not_found_reply "Inr None" sequence_state]
  have r1: "bibleReference
      (fst (handleGenerateNextVerse sequence_state verse_not_found_reply (Inr None))) =
      bibleReference sequence_state"
    by blast
  from c advanceSequence_reference [of scene_ok_reply "Inr (Some [js ''BBBB''])" sequence_state]
  have r2: "bibleReference
      (fst (handleGenerateNextVerse sequence_state scene_ok_reply (Inr (Some [js ''BBBB''])))) =
      getNextVerseRef (bibleReference sequence_state)"
    by blast
  from a r1 r2 sequence_state_next_neq show ?thesis by blast
qed

section \<open>The verse-not-found boundary, the character set, the image\<close>

lemma js_includes_self: "js_includes s s"
  by (cases s) simp_all

lemma nextVerse_catch_boundary:
  "nextVerse_catch lastValidRef s (newError VERSE_NOT_FOUND) =
     s\<lparr>imageError := Some msg_chapter_ended, isSequenceActive := False,
       bibleReference := lastValidRef\<rparr>"
  by (simp add: nextVerse_catch_def newError_def js_includes_self)

lemma verse_not_found_signal:
  "api_error parsedJson = Some VERSE_NOT_FOUND \<Longrightarrow>
     generateImagePrompt (Inr (Some parsedJson)) = Inl (newError VERSE_NOT_FOUND)"
  by (simp add: generateImagePrompt_def)

lemma chapter_ended_distinct:
  "msg_chapter_ended \<noteq> VERSE_NOT_FOUND" "msg_chapter_ended \<noteq> msg_server_retry_later"
  "msg_chapter_ended \<noteq> msg_next_verse_failed"
  by (simp_all add: msg_chapter_ended_def VERSE_NOT_FOUND_def msg_server_retry_later_def
      msg_next_verse_failed_def)

text \<open>
  On the way to the next verse the boundary is handled. When the scene-description reply
  of \<^verbatim>\<open>handleGenerateNextVerse\<close> carries the verse-not-found marker,
  \<^verbatim>\<open>generateImagePrompt\<close> throws the verse-not-found error, the sequence becomes inactive,
  the reference is the one from before the call, and the message shown is the
  chapter-ended message: not the raw marker, not the server message and not the generic
  failure message. No image request is sent.
\<close>

lemma advanceSequence_verse_not_found:
  assumes "api_error parsedJson = Some VERSE_NOT_FOUND"
    and "getNextVerseRef (bibleReference s) \<noteq> []"
    and "characters s \<noteq> None"
  shows "generateImagePrompt (Inr (Some parsedJson)) = Inl (newError VERSE_NOT_FOUND) \<and>
    \<not> isSequenceActive (fst (handleGenerateNextVerse s (Inr (Some parsedJson)) imageReply)) \<and>
    bibleReference (fst (handleGenerateNextVerse s (Inr (Some parsedJson)) imageReply)) =
      bibleReference s \<and>
    imageError (fst (handleGenerateNextVerse s (Inr (Some parsedJson)) imageReply)) =
      Some msg_chapter_ended \<and>
    promptError (fst (handleGenerateNextVerse s (Inr (Some parsedJson)) imageReply)) = None \<and>
    imageError (fst (handleGenerateNextVerse s (Inr (Some parsedJson)) imageReply)) \<notin>
      {Some VERSE_NOT_FOUND, Some msg_server_retry_later, Some msg_next_verse_failed} \<and>
    snd (handleGenerateNextVerse s (Inr (Some parsedJson)) imageReply) =
      [Request (sceneRequest (getNextVerseRef (bibleReference s)) (characters s))]"
  using assms
  by (simp add: handleGenerateNextVerse_def Let_def verse_not_found_signal
      nextVerse_catch_boundary chapter_ended_distinct)

lemma nextVerse_catch_promptText [simp]:
  "promptText (nextVerse_catch lastValidRef s err) = promptText s"
  by (simp add: nextVerse_catch_def)

text \<open>
  Claim C3, as the code has it. When the scene-description call fails, the character set
  is the one from before the call. When it succeeds and the image call then fails, the
  handler keeps the character set and the prompt of the new result; only the reference
  goes back to its value from before the call.
\<close>

theorem advanceSequence_characters:
  "(isl (generateImagePrompt sceneReply) \<longrightarrow>
      characters (fst (handleGenerateNextVerse s sceneReply imageReply)) = characters s) \<and>
   (getNextVerseRef (bibleReference s) \<noteq> [] \<and> characters s \<noteq> None \<and>
    generateImagePrompt sceneReply = Inr result \<and> isl (generateImage imageReply) \<longrightarrow>
      characters (fst (handleGenerateNextVerse s sceneReply imageReply)) =
        Some (characterDescriptions result) \<and>
      promptText (fst (handleGenerateNextVerse s sceneReply imageReply)) = scenePrompt result \<and>
      bibleReference (fst (handleGenerateNextVerse s sceneReply imageReply)) = bibleReference s)"
  by (auto simp: handleGenerateNextVerse_def Let_def split: sum.splits)

text \<open>
  Claim C5. After a successful scene-description call the character set of the component
  is exactly the set of the result, whatever it was before: in \<^verbatim>\<open>handleGenerateNextVerse\<close>
  (whether or not the image call succeeds afterwards) and in \<^verbatim>\<open>handleGeneratePrompt\<close>.
\<close>

theorem merge_full_replace:
  "(getNextVerseRef (bibleReference s) \<noteq> [] \<and> characters s \<noteq> None \<and>
    generateImagePrompt sceneReply = Inr result \<longrightarrow>
      characters (fst (handleGenerateNextVerse s sceneReply imageReply)) =
        Some (characterDescriptions result)) \<and>
   (trim (bibleReference s) \<noteq> [] \<and> generateImagePrompt sceneReply = Inr result \<longrightarrow>
      characters (fst (handleGeneratePrompt s sceneReply)) =
        Some (characterDescriptions result))"
  by (auto simp: handleGenerateNextVerse_def handleGeneratePrompt_def Let_def split: sum.splits)

text \<open>
  Claim C8, as the code has it. \<^verbatim>\<open>handleGenerateImage\<close> does nothing when the prompt is
  blank or an image is loading. When the image call fails, the active flag, the reference
  and the character set are unchanged, the image on display is cleared and an error is
  shown. When it succeeds, the sequence is active and the image is stored.
\<close>

theorem handleGenerateImage_outcome:
  "(trim (promptText s) = [] \<or> isImageLoading s \<longrightarrow>
      handleGenerateImage s reply = (s, [])) \<and>
   (trim (promptText s) \<noteq> [] \<and> \<not> isImageLoading s \<and> generateImage reply = Inl err \<longrightarrow>
      isSequenceActive (fst (handleGenerateImage s reply)) = isSequenceActive s \<and>
      bibleReference (fst (handleGenerateImage s reply)) = bibleReference s \<and>
      characters (fst (handleGenerateImage s reply)) = characters s \<and>
      generatedImage (fst (handleGenerateImage s reply)) = None \<and>
      imageError (fst (handleGenerateImage s reply)) \<noteq> None) \<and>
   (trim (promptText s) \<noteq> [] \<and> \<not> isImageLoading s \<and> generateImage reply = Inr imageBase64 \<longrightarrow>
      isSequenceActive (fst (handleGenerateImage s reply)) \<and>
      generatedImage (fst (handleGenerateImage s reply)) = Some (dataUrl imageBase64))"
  by (auto simp: handleGenerateImage_def Let_def)


lemma sequence_state_promptText: "trim (promptText sequence_state) \<noteq> []"
  by (simp add: sequence_state_def initial_state_def trim_def isWhiteSpace_def
      isLineTerminator_def)

lemma advanceSequence_verse_not_found_example:
  "\<not> isSequenceActive (fst (handleGenerateNextVerse sequence_state verse_not_found_reply (Inr None))) \<and>
   bibleReference (fst (handleGenerateNextVerse sequence_state verse_not_found_reply (Inr None))) =
     bibleReference sequence_state \<and>
   imageError (fst (handleGenerateNextVerse sequence_state verse_not_found_reply (Inr None))) =
     Some msg_chapter_ended"
  using advanceSequence_verse_not_found
    [of "\<lparr>api_scenePrompt = None, api_characterDescriptions = None,
           api_error = Some VERSE_NOT_FOUND\<rparr>" sequence_state "Inr None"]
    sequence_state_next_nonempty
  by (simp add: sequence_state_characters verse_not_found_reply_def)

text \<open>
  Outside a sequence, \<^verbatim>\<open>handleGeneratePrompt\<close> has no branch for the verse-not-found
  error: it shows the message of the error as it is.
\<close>

lemma verse_not_found_not_server_error: "\<not> isServerError (newError VERSE_NOT_FOUND)"
  by (simp add: isServerError_def newError_def VERSE_NOT_FOUND_def)

lemma handleGeneratePrompt_verse_not_found:
  "trim (bibleReference s) \<noteq> [] \<Longrightarrow>
   promptError (fst (handleGeneratePrompt s verse_not_found_reply)) = Some VERSE_NOT_FOUND"
  by (simp add: handleGeneratePrompt_def Let_def verse_not_found_thrown
      verse_not_found_not_server_error)
     (simp add: newError_def orElse_def VERSE_NOT_FOUND_def)

lemma typed_reference_state_nonblank: "trim (bibleReference typed_reference_state) \<noteq> []"
  by (simp add: typed_reference_state_def initial_state_def trim_def isWhiteSpace_def
      isLineTerminator_def)

text \<open>
  Claim C2. The verse-not-found error that \<^verbatim>\<open>generateImagePrompt\<close> throws is the same for
  both callers. \<^verbatim>\<open>handleGenerateNextVerse\<close> turns it into the chapter-ended message;
  \<^verbatim>\<open>handleGeneratePrompt\<close>, called with a reference to a verse that does not exist, takes
  its generic branch and shows the marker itself as the prompt error.
\<close>

theorem verse_not_found_shown_as_error:
  "generateImagePrompt verse_not_found_reply = Inl (newError VERSE_NOT_FOUND) \<and>
   imageError (fst (handleGenerateNextVerse sequence_state verse_not_found_reply (Inr None))) =
     Some msg_chapter_ended \<and>
   promptError (fst (handleGeneratePrompt typed_reference_state verse_not_found_reply)) =
     Some (orElse (message (newError VERSE_NOT_FOUND)) msg_prompt_failed) \<and>
   promptError (fst (handleGeneratePrompt typed_reference_state verse_not_found_reply)) =
     Some VERSE_NOT_FOUND"
proof -
  have a: "promptError (fst (handleGeneratePrompt typed_reference_state verse_not_found_reply)) =
      Some VERSE_NOT_FOUND"
    using typed_reference_state_nonblank by (rule handleGeneratePrompt_verse_not_found)
  have b: "orElse (message (newError VERSE_NOT_FOUND)) msg_prompt_failed = VERSE_NOT_FOUND"
    by (simp add: newError_def orElse_def VERSE_NOT_FOUND_def)
  from a b verse_not_found_thrown advanceSequence_verse_not_found_example
  show ?thesis by simp
qed

text \<open>
  The character set does not go back: the image call fails after a scene description that
  replaced Adam by Eva, and Eva stays.
\<close>

theorem advanceSequence_characters_counterexample:
  "generateImagePrompt scene_ok_reply =
     Inr \<lparr>scenePrompt = js ''dawn'', characterDescriptions = [(js ''Eva'', js ''tall'')]\<rparr> \<and>
   generateImage (Inr None) = Inl (newError msg_no_image) \<and>
   characters sequence_state = Some [(js ''Adam'', js ''dark hair'')] \<and>
   characters (fst (handleGenerateNextVerse sequence_state scene_ok_reply (Inr None))) =
     Some [(js ''Eva'', js ''tall'')] \<and>
   characters (fst (handleGenerateNextVerse sequence_state scene_ok_reply (Inr None))) \<noteq>
     characters sequence_state"
  unfolding handleGenerateNextVerse_def Let_def scene_ok_result no_image_thrown
  using sequence_state_next_nonempty
  by (simp add: sequence_state_characters)

theorem advanceSequence_characters_witness:
  "isl (generateImagePrompt verse_not_found_reply) \<and>
   characters (fst (handleGenerateNextVerse sequence_state verse_not_found_reply (Inr None))) =
     characters sequence_state \<and>
   isl (generateImage (Inr None)) \<and>
   characters (fst (handleGenerateNextVerse sequence_state scene_ok_reply (Inr None))) =
     Some [(js ''Eva'', js ''tall'')] \<and>
   bibleReference (fst (handleGenerateNextVerse sequence_state scene_ok_reply (Inr None))) =
     bibleReference sequence_state"
proof -
  have a: "isl (generateImagePrompt verse_not_found_reply)"
    by (simp add: verse_not_found_thrown)
  have b: "isl (generateImage (Inr None))"
    by (simp add: no_image_thrown)
  have c: "characters sequence_state \<noteq> None"
    by (simp add: sequence_state_characters)
  from a advanceSequence_characters [of verse_not_found_reply sequence_state "Inr None"]
  have r1: "characters (fst (handleGenerateNextVerse sequence_state verse_not_found_reply (Inr None))) =
     characters sequence_state"
    by blast
  from b c sequence_state_next_nonempty scene_ok_result
    advanceSequence_characters [of scene_ok_reply sequence_state "Inr None"
      "\<lparr>scenePrompt = js ''dawn'', characterDescriptions = [(js ''Eva'', js ''tall'')]\<rparr>"]
  have r2: "characters (fst (handleGenerateNextVerse sequence_state scene_ok_reply (Inr None))) =
      Some (characterDescriptions
        \<lparr>scenePrompt = js ''dawn'', characterDescriptions = [(js ''Eva'', js ''tall'')]\<rparr>) \<and>
     bibleReference (fst (handleGenerateNextVerse sequence_state scene_ok_reply (Inr None))) =
     bibleReference sequence_state"
    by blast
  from a b r1 r2 show ?thesis by simp
qed

theorem merge_full_replace_witness:
  "characters (fst (handleGenerateNextVerse sequence_state scene_ok_reply (Inr (Some [js ''BBBB''])))) =
     Some [(js ''Eva'', js ''tall'')] \<and>
   characters (fst (handleGeneratePrompt sequence_state scene_ok_reply)) =
     Some [(js ''Eva'', js ''tall'')]"
proof -
  have c: "characters sequence_state \<noteq> None"
    by (simp add: sequence_state_characters)
  have t: "trim (bibleReference sequence_state) \<noteq> []"
    by (simp add: sequence_state_def initial_state_def trim_def isWhiteSpace_def
      isLineTerminator_def)
  note m = merge_full_replace [of sequence_state scene_ok_reply
      "\<lparr>scenePrompt = js ''dawn'', characterDescriptions = [(js ''Eva'', js ''tall'')]\<rparr>"]
  from c sequence_state_next_nonempty scene_ok_result m [of "Inr (Some [js ''BBBB''])"]
  have r1: "characters (fst (handleGenerateNextVerse sequence_state scene_ok_reply (Inr (Some [js ''BBBB''])))) =
      Some (characterDescriptions
        \<lparr>scenePrompt = js ''dawn'', characterDescriptions = [(js ''Eva'', js ''tall'')]\<rparr>)"
    by blast
  from t scene_ok_result m [of "Inr None"]
  have r2: "characters (fst (handleGeneratePrompt sequence_state scene_ok_reply)) =
      Some (characterDescriptions
        \<lparr>scenePrompt = js ''dawn'', characterDescriptions = [(js ''Eva'', js ''tall'')]\<rparr>)"
    by blast
  from r1 r2 show ?thesis by simp
qed

lemma chapter_ended_state_fields:
  "trim (promptText chapter_ended_state) \<noteq> []" "\<not> isImageLoading chapter_ended_state"
  "generatedImage chapter_ended_state = Some (dataUrl (js ''AAAA''))"
  by (simp_all add: chapter_ended_state_def sequence_state_def initial_state_def trim_def
      isWhiteSpace_def isLineTerminator_def)

text \<open>
  The image on display does not survive a failed image call.
\<close>

theorem handleGenerateImage_counterexample:
  "generateImage (Inr None) = Inl (newError msg_no_image) \<and>
   generatedImage chapter_ended_state = Some (dataUrl (js ''AAAA'')) \<and>
   generatedImage (fst (handleGenerateImage chapter_ended_state (Inr None))) = None \<and>
   generatedImage (fst (handleGenerateImage chapter_ended_state (Inr None))) \<noteq>
     generatedImage chapter_ended_state"
  unfolding handleGenerateImage_def Let_def no_image_thrown
  using chapter_ended_state_fields by simp

theorem handleGenerateImage_outcome_witness:
  "generatedImage (fst (handleGenerateImage chapter_ended_state (Inr None))) = None \<and>
   characters (fst (handleGenerateImage chapter_ended_state (Inr None))) =
     characters chapter_ended_state \<and>
   isSequenceActive (fst (handleGenerateImage chapter_ended_state (Inr (Some [js ''BBBB''])))) \<and>
   generatedImage (fst (handleGenerateImage chapter_ended_state (Inr (Some [js ''BBBB''])))) =
     Some (dataUrl (js ''BBBB'')) \<and>
   handleGenerateImage initial_state (Inr None) = (initial_state, [])"
proof -
  have i: "trim (promptText initial_state) = []"
    by (simp add: initial_state_def trim_def)
  from chapter_ended_state_fields no_image_thrown
    handleGenerateImage_outcome [of chapter_ended_state "Inr None" "newError msg_no_image"]
  have r1: "generatedImage (fst (handleGenerateImage chapter_ended_state (Inr None))) = None \<and>
      characters (fst (handleGenerateImage chapter_ended_state (Inr None))) =
        characters chapter_ended_state"
    by blast
  from chapter_ended_state_fields image_ok_result
    handleGenerateImage_outcome [of chapter_ended_state "Inr (Some [js ''BBBB''])" _ "js ''BBBB''"]
  have r2: "isSequenceActive (fst (handleGenerateImage chapter_ended_state (Inr (Some [js ''BBBB''])))) \<and>
     generatedImage (fst (handleGenerateImage chapter_ended_state (Inr (Some [js ''BBBB''])))) =
       Some (dataUrl (js ''BBBB''))"
    by blast
  from i handleGenerateImage_outcome [of initial_state "Inr None"]
  have r3: "handleGenerateImage initial_state (Inr None) = (initial_state, [])"
    by blast
  from r1 r2 r3 show ?thesis by blast
qed

section \<open>Operations in flight\<close>

lemma image_loading_state_fields:
  "isImageLoading image_loading_state" "trim (bibleReference image_loading_state) \<noteq> []"
  "bibleReference image_loading_state = js ''G 1:5''"
  by (simp_all add: image_loading_state_def chapter_ended_state_def sequence_state_def
      initial_state_def trim_def isWhiteSpace_def isLineTerminator_def)

text \<open>
  Claim C9, as the code has it. The handlers for image generation, verse-text fetch and
  audio generation return at once, with the state unchanged and nothing sent, when their
  own operation is in flight. No handler looks at the flag of another operation, and the
  handlers for prompt generation and for the next verse look at no flag at all: what keeps
  a second operation from starting is the interface, which disables all five buttons
  while any operation is loading.
\<close>

theorem in_flight_rejection:
  "(isImageLoading s \<longrightarrow> handleGenerateImage s imageReply = (s, [])) \<and>
   (isFetchingVerse s \<longrightarrow> handleFetchVerseText s textReply = (s, [])) \<and>
   (isAudioLoading s \<longrightarrow> handleGenerateAudioClick s atob speechReply fresh = (s, [])) \<and>
   (isAnyLoading s \<longrightarrow>
      promptButton_disabled s \<and> imageButton_disabled s \<and> nextVerseButton_disabled s \<and>
      fetchVerseButton_disabled s \<and> audioButton_disabled s)"
  by (simp add: handleGenerateImage_def handleFetchVerseText_def handleGenerateAudioClick_def
      audioClick_rejected_def promptButton_disabled_def imageButton_disabled_def
      nextVerseButton_disabled_def fetchVerseButton_disabled_def audioButton_disabled_def)

text \<open>
  Called while an image request is in flight, \<^verbatim>\<open>handleGeneratePrompt\<close> sends its request
  and changes the state.
\<close>

theorem in_flight_rejection_counterexample:
  "isAnyLoading image_loading_state \<and>
   snd (handleGeneratePrompt image_loading_state scene_ok_reply) =
     [Request (sceneRequest (js ''G 1:5'') None)] \<and>
   fst (handleGeneratePrompt image_loading_state scene_ok_reply) \<noteq> image_loading_state"
proof -
  have a: "isAnyLoading image_loading_state"
    by (simp add: isAnyLoading_def image_loading_state_fields)
  have b: "snd (handleGeneratePrompt image_loading_state scene_ok_reply) =
     [Request (sceneRequest (js ''G 1:5'') None)]"
    using image_loading_state_fields(2)
    by (simp add: handleGeneratePrompt_def Let_def image_loading_state_fields(3))
  have c: "promptText (fst (handleGeneratePrompt image_loading_state scene_ok_reply)) = js ''dawn''"
    using image_loading_state_fields(2)
    by (simp add: handleGeneratePrompt_def Let_def scene_ok_result)
  have d: "promptText image_loading_state = js ''light''"
    by (simp add: image_loading_state_def chapter_ended_state_def sequence_state_def
      initial_state_def)
  have "fst (handleGeneratePrompt image_loading_state scene_ok_reply) \<noteq> image_loading_state"
  proof
    assume "fst (handleGeneratePrompt image_loading_state scene_ok_reply) = image_loading_state"
    with c d show False by simp
  qed
  with a b show ?thesis by blast
qed

theorem in_flight_rejection_witness:
  "isImageLoading image_loading_state \<and>
   handleGenerateImage image_loading_state (Inr None) = (image_loading_state, []) \<and>
   promptButton_disabled image_loading_state"
proof -
  have a: "isAnyLoading image_loading_state"
    by (simp add: isAnyLoading_def image_loading_state_fields)
  from a image_loading_state_fields(1)
    in_flight_rejection [of image_loading_state "Inr None"]
  show ?thesis by blast
qed

section \<open>The language of the verse text\<close>

text \<open>
  For a code that is neither supported nor the name of an inherited member, the request
  is the one for \<^verbatim>\<open>pt-BR\<close>, and the handler does what it does for \<^verbatim>\<open>pt-BR\<close>.
\<close>

lemma fallback_language:
  "lang \<notin> {js ''pt-BR'', js ''en-US'', js ''es-ES'', js ''fr-FR'', js ''de-DE''} \<Longrightarrow>
   map_of Object_prototype lang = None \<Longrightarrow>
   languageName lang = languageName (js ''pt-BR'')"
  by (simp add: languageName_def languageMap_def)

lemma unsupported_language_fallback:
  assumes "lang \<notin> {js ''pt-BR'', js ''en-US'', js ''es-ES'', js ''fr-FR'', js ''de-DE''}"
    and "map_of Object_prototype lang = None"
  shows "languageName lang = js ''Portugu'' @ [234] @ js ''s (Brasil)'' \<and>
    getVerseText ref lang reply = getVerseText ref (js ''pt-BR'') reply \<and>
    handleFetchVerseText (s\<lparr>language := lang\<rparr>) reply =
      (fst (handleFetchVerseText (s\<lparr>language := js ''pt-BR''\<rparr>) reply)\<lparr>language := lang\<rparr>,
       snd (handleFetchVerseText (s\<lparr>language := js ''pt-BR''\<rparr>) reply))"
proof -
  have n: "languageName lang = languageName (js ''pt-BR'')"
    using assms by (rule fallback_language)
  have p: "languageName (js ''pt-BR'') = js ''Portugu'' @ [234] @ js ''s (Brasil)''"
    by (simp add: languageName_def languageMap_def)
  have g: "getVerseText ref lang reply =
      getVerseText ref (js ''pt-BR'') reply" for ref
    by (simp add: getVerseText_def textPrompt_def n)
  have h: "handleFetchVerseText (s\<lparr>language := lang\<rparr>) reply =
      (fst (handleFetchVerseText (s\<lparr>language := js ''pt-BR''\<rparr>) reply)\<lparr>language := lang\<rparr>,
       snd (handleFetchVerseText (s\<lparr>language := js ''pt-BR''\<rparr>) reply))"
    unfolding handleFetchVerseText_def Let_def
    by (simp add: g split: prod.splits sum.splits)
  from n p g h show ?thesis by simp
qed

text \<open>
  Claim C10. The language code \<^verbatim>\<open>constructor\<close> is none of the five supported codes, yet
  \<^verbatim>\<open>languageMap[language]\<close> finds the inherited member of that name, which is truthy: the
  fallback is not taken, and the request names the text of a native function as the
  language instead of Portuguese.
\<close>

theorem unsupported_language_inherited_member:
  "js ''constructor'' \<notin> {js ''pt-BR'', js ''en-US'', js ''es-ES'', js ''fr-FR'', js ''de-DE''} \<and>
   languageName (js ''constructor'') = js ''function Object() { [native code] }'' \<and>
   languageName (js ''constructor'') \<noteq> js ''Portugu'' @ [234] @ js ''s (Brasil)'' \<and>
   fst (getVerseText (js ''G 1:5'') (js ''constructor'') (Inr (js ''In the beginning''))) \<noteq>
     fst (getVerseText (js ''G 1:5'') (js ''pt-BR'') (Inr (js ''In the beginning'')))"
  by (simp add: languageName_def languageMap_def Object_prototype_def nativeFunction_def
      getVerseText_def textPrompt_def)

lemma unsupported_language_fallback_example:
  "languageName (js ''xx-XX'') = js ''Portugu'' @ [234] @ js ''s (Brasil)'' \<and>
   getVerseText (js ''G 1:5'') (js ''xx-XX'') (Inr (js '' In the beginning ''))
     = getVerseText (js ''G 1:5'') (js ''pt-BR'') (Inr (js '' In the beginning ''))"
proof -
  have a: "js ''xx-XX'' \<notin> {js ''pt-BR'', js ''en-US'', js ''es-ES'', js ''fr-FR'', js ''de-DE''}"
    by simp
  have b: "map_of Object_prototype (js ''xx-XX'') = None"
    by (simp add: Object_prototype_def)
  from unsupported_language_fallback [OF a b, of "js ''G 1:5''" "Inr (js '' In the beginning '')"]
  show ?thesis by blast
qed

section \<open>The WAV container: what the writes amount to\<close>

lemma setUint8_closed:
  "byteOffset < length view \<Longrightarrow>
   setUint8 view byteOffset v =
     Inr (take byteOffset view @ [word_of_nat v] @ drop (byteOffset + 1) view)"
  by (simp add: setUint8_def upd_conv_take_nth_drop)

lemma setUint16_closed:
  "byteOffset + 2 \<le> length view \<Longrightarrow>
   setUint16 view byteOffset v = Inr (take byteOffset view @ le16 v @ drop (byteOffset + 2) view)"
  apply (simp add: setUint16_def le16_def)
  apply (rule nth_equalityI)
   apply simp
  apply (auto simp: nth_append nth_list_update nth_Cons split: nat.splits)
  subgoal for i x by (rule arg_cong [where f = "nth view"]) arith
  done

lemma setUint32_closed:
  "byteOffset + 4 \<le> length view \<Longrightarrow>
   setUint32 view byteOffset v = Inr (take byteOffset view @ le32 v @ drop (byteOffset + 4) view)"
  apply (simp add: setUint32_def le32_def)
  apply (rule nth_equalityI)
   apply simp
  apply (auto simp: nth_append nth_list_update nth_Cons split: nat.splits)
  subgoal for i x by (rule arg_cong [where f = "nth view"]) arith
  done


lemma read_back32:
  assumes "v < 4294967296"
  shows "unat (word_of_nat v :: byte) + 256 * unat (word_of_nat (v div 256) :: byte) +
     65536 * unat (word_of_nat (v div 65536) :: byte) +
     16777216 * unat (word_of_nat (v div 16777216) :: byte) = v"
proof -
  define a where "a = v div 256"
  define b where "b = a div 256"
  define c where "c = b div 256"
  define r0 where "r0 = v mod 256"
  define r1 where "r1 = a mod 256"
  define r2 where "r2 = b mod 256"
  have b': "b = v div 65536" by (simp add: b_def a_def div_mult2_eq)
  have c': "c = v div 16777216" by (simp add: c_def b' div_mult2_eq)
  have "v < 256 * 16777216" using assms by simp
  then have "c < 256" unfolding c' by (rule less_mult_imp_div_less)
  then have c0: "c mod 256 = c" by simp
  have 1: "v = r0 + 256 * a" by (simp add: a_def r0_def)
  have 2: "a = r1 + 256 * b" by (simp add: b_def r1_def)
  have 3: "b = r2 + 256 * c" by (simp add: c_def r2_def)
  have "r0 + 256 * r1 + 65536 * r2 + 16777216 * c = v"
    using 1 2 3 by linarith
  then show ?thesis
    unfolding r0_def r1_def r2_def a_def b' c' [symmetric]
    using c0 by (simp add: unat_of_nat c' a_def b' [symmetric])
qed

lemma read_back16:
  assumes "v < 65536"
  shows "unat (word_of_nat v :: byte) + 256 * unat (word_of_nat (v div 256) :: byte) = v"
proof -
  have "v < 256 * 256" using assms by simp
  then have "v div 256 < 256" by (rule less_mult_imp_div_less)
  then have "(v div 256) mod 256 = v div 256" by simp
  then show ?thesis by (simp add: unat_of_nat)
qed

declare writeString_loop.simps [simp del] writePcm_loop.simps [simp del]

lemma drop_patch:
  assumes "n \<le> length xs" and "n + length ys \<le> m"
  shows "drop m (take n xs @ ys @ drop (n + length ys) xs) = drop m xs"
proof -
  obtain j where m: "m = n + length ys + j"
    using assms(2) by (metis le_Suc_ex)
  have "drop m (take n xs @ ys @ drop (n + length ys) xs) =
      drop (length ys + j) (ys @ drop (n + length ys) xs)"
    using assms(1) by (simp add: m)
  also have "\<dots> = drop j (drop (n + length ys) xs)"
    by simp
  also have "\<dots> = drop m xs"
    by (simp add: m add.commute)
  finally show ?thesis .
qed

lemma writeString_loop_closed:
  "i \<le> length str \<Longrightarrow> offset + length str \<le> length view \<Longrightarrow>
   writeString_loop view offset str i =
     Inr (take (offset + i) view @ map word_of_nat (drop i str) @ drop (offset + length str) view)"
proof (induction "length str - i" arbitrary: i view)
  case 0
  then show ?case
    by (subst writeString_loop.simps) simp
next
  case (Suc k)
  then have lt: "i < length str" by simp
  let ?view' = "take (offset + i) view @ [word_of_nat (str ! i)] @ drop (offset + i + 1) view"
  have s8: "setUint8 view (offset + i) (str ! i) = Inr ?view'"
    using lt Suc.prems by (intro setUint8_closed) simp
  have len: "offset + length str \<le> length ?view'"
    using lt Suc.prems by simp
  have ih: "writeString_loop ?view' offset str (i + 1) =
     Inr (take (offset + (i + 1)) ?view' @ map word_of_nat (drop (i + 1) str) @
          drop (offset + length str) ?view')"
    using Suc.hyps(2) lt len by (intro Suc.hyps(1)) simp_all
  have t: "take (offset + (i + 1)) ?view' = take (offset + i) view @ [word_of_nat (str ! i)]"
    using lt Suc.prems by simp
  have d: "drop (offset + length str) ?view' = drop (offset + length str) view"
    using drop_patch [of "offset + i" view "[word_of_nat (str ! i)]" "offset + length str"]
      lt Suc.prems by simp
  have c: "drop i str = str ! i # drop (i + 1) str"
    using lt by (simp add: Cons_nth_drop_Suc)
  show ?case
    apply (subst writeString_loop.simps)
    using lt apply (simp only: if_True s8 andThen_def sum.case ih t d c)
    apply simp
    done
qed

lemma writePcm_loop_closed:
  "i \<le> length pcmData \<Longrightarrow> 44 + length pcmData \<le> length view \<Longrightarrow>
   writePcm_loop view pcmData i =
     Inr (take (44 + i) view @ drop i pcmData @ drop (44 + length pcmData) view)"
proof (induction "length pcmData - i" arbitrary: i view)
  case 0
  then show ?case
    by (subst writePcm_loop.simps) simp
next
  case (Suc k)
  then have lt: "i < length pcmData" by simp
  let ?view' = "take (44 + i) view @ [word_of_nat (unat (pcmData ! i))] @ drop (44 + i + 1) view"
  have s8: "setUint8 view (44 + i) (unat (pcmData ! i)) = Inr ?view'"
    using lt Suc.prems by (intro setUint8_closed) simp
  have len: "44 + length pcmData \<le> length ?view'"
    using lt Suc.prems by simp
  have ih: "writePcm_loop ?view' pcmData (i + 1) =
     Inr (take (44 + (i + 1)) ?view' @ drop (i + 1) pcmData @
          drop (44 + length pcmData) ?view')"
    using Suc.hyps(2) lt len by (intro Suc.hyps(1)) simp_all
  have t: "take (44 + (i + 1)) ?view' = take (44 + i) view @ [word_of_nat (unat (pcmData ! i))]"
    using lt Suc.prems by simp
  have d: "drop (44 + length pcmData) ?view' = drop (44 + length pcmData) view"
    using drop_patch [of "44 + i" view "[word_of_nat (unat (pcmData ! i))]" "44 + length pcmData"]
      lt Suc.prems by simp
  have c: "drop i pcmData = pcmData ! i # drop (i + 1) pcmData"
    using lt by (simp add: Cons_nth_drop_Suc)
  show ?case
    apply (subst writePcm_loop.simps)
    using lt apply (simp only: if_True s8 andThen_def sum.case ih t d c)
    apply simp
    done
qed

lemma zeros44:
  "replicate 44 (0 :: byte) =
     [0,0,0,0, 0,0,0,0, 0,0,0,0, 0,0,0,0, 0,0,0,0, 0,0,0,0, 0,0,0,0, 0,0,0,0, 0,0,0,0,
      0,0,0,0, 0,0,0,0]"
  by (simp add: numeral_eq_Suc)

lemma wavBlobOfPcm_closed:
  "wavBlobOfPcm pcmData =
     Inr \<lparr>blob_bytes = canonical_wav_header (length pcmData) @ pcmData,
          blob_type = js ''audio/wav''\<rparr>"
  apply (simp add: wavBlobOfPcm_def writeString_def Let_def replicate_add zeros44
      writeString_loop_closed setUint32_closed setUint16_closed writePcm_loop_closed
      andThen_def canonical_wav_header_def le32_def le16_def)
  done

lemmas header_bytes = canonical_wav_header_def le32_def le16_def

lemma header_length: "length (canonical_wav_header n) = 44"
  by (simp add: header_bytes)

lemma header_tags:
  "take 4 (canonical_wav_header n @ pcm) = map word_of_nat (js ''RIFF'')"
  "take 4 (drop 8 (canonical_wav_header n @ pcm)) = map word_of_nat (js ''WAVE'')"
  "take 4 (drop 12 (canonical_wav_header n @ pcm)) = map word_of_nat (js ''fmt '')"
  "take 4 (drop 36 (canonical_wav_header n @ pcm)) = map word_of_nat (js ''data'')"
  by (simp_all add: header_bytes)

lemma header_payload: "drop 44 (canonical_wav_header n @ pcm) = pcm"
  by (simp add: header_length)

lemma header_size_bytes:
  "take 4 (drop 4 (canonical_wav_header n @ pcm)) = le32 (36 + n)"
  "take 4 (drop 40 (canonical_wav_header n @ pcm)) = le32 n"
  by (simp_all add: header_bytes)

lemma header_sizes:
  "n + 36 < 4294967296 \<Longrightarrow> getUint32 (canonical_wav_header n @ pcm) 4 = 36 + n"
  "n + 36 < 4294967296 \<Longrightarrow> getUint32 (canonical_wav_header n @ pcm) 40 = n"
  using read_back32 [of "36 + n"] read_back32 [of n]
  by (simp_all add: header_bytes getUint32_def)

lemma header_format:
  "getUint32 (canonical_wav_header n @ pcm) 16 = 16"
  "getUint16 (canonical_wav_header n @ pcm) 20 = 1"
  "getUint16 (canonical_wav_header n @ pcm) 22 = 1"
  "getUint32 (canonical_wav_header n @ pcm) 24 = 24000"
  "getUint32 (canonical_wav_header n @ pcm) 28 = 48000"
  "getUint16 (canonical_wav_header n @ pcm) 32 = 2"
  "getUint16 (canonical_wav_header n @ pcm) 34 = 16"
  using read_back32 [of 16] read_back32 [of 24000] read_back32 [of 48000]
    read_back16 [of 1] read_back16 [of 2] read_back16 [of 16]
  by (simp_all add: header_bytes getUint32_def getUint16_def)

lemma createWavBlob_decoded:
  "atob base64 = Inr binaryString \<Longrightarrow>
   createWavBlob atob base64 = wavBlobOfPcm (map word_of_nat binaryString)"
  by (simp add: createWavBlob_def andThen_def)

text \<open>
  Claim C4. For every byte buffer, the empty one included, \<^verbatim>\<open>createWavBlob\<close> throws
  nothing and returns \<open>44 + n\<close> bytes of type \<^verbatim>\<open>audio/wav\<close>: the tags \<^verbatim>\<open>RIFF\<close>,
  \<^verbatim>\<open>WAVE\<close>, \<^verbatim>\<open>fmt \<close> and \<^verbatim>\<open>data\<close>, the sub-chunk size 16, format 1, one channel,
  24000 samples a second, 48000 bytes a second, block align 2, 16 bits a sample, all
  little-endian, then the input bytes as they are; the chunk size field holds \<open>36 + n\<close>
  and the data size field holds \<open>n\<close>. The two size fields are 32 bits wide, so they are
  read back for \<open>36 + n < 2 ^ 32\<close>: the buffer is copied out of the string \<^verbatim>\<open>atob\<close>
  returns, and no string is that long. The result is a function of the input bytes:
  \<open>wavBlobOfPcm_closed\<close> gives it.
\<close>

theorem wav_container:
  "\<exists>b. wavBlobOfPcm pcmData = Inr b \<and> blob_type b = js ''audio/wav'' \<and>
    length (blob_bytes b) = 44 + length pcmData \<and>
    take 4 (blob_bytes b) = map word_of_nat (js ''RIFF'') \<and>
    take 4 (drop 8 (blob_bytes b)) = map word_of_nat (js ''WAVE'') \<and>
    take 4 (drop 12 (blob_bytes b)) = map word_of_nat (js ''fmt '') \<and>
    getUint32 (blob_bytes b) 16 = 16 \<and>
    getUint16 (blob_bytes b) 20 = 1 \<and>
    getUint16 (blob_bytes b) 22 = 1 \<and>
    getUint32 (blob_bytes b) 24 = 24000 \<and>
    getUint32 (blob_bytes b) 28 = 48000 \<and>
    getUint16 (blob_bytes b) 32 = 2 \<and>
    getUint16 (blob_bytes b) 34 = 16 \<and>
    take 4 (drop 36 (blob_bytes b)) = map word_of_nat (js ''data'') \<and>
    drop 44 (blob_bytes b) = pcmData \<and>
    take 4 (drop 4 (blob_bytes b)) = le32 (36 + length pcmData) \<and>
    take 4 (drop 40 (blob_bytes b)) = le32 (length pcmData) \<and>
    (length pcmData + 36 < 4294967296 \<longrightarrow>
       getUint32 (blob_bytes b) 4 = 36 + length pcmData \<and>
       getUint32 (blob_bytes b) 40 = length pcmData)"
proof (intro exI conjI impI)
  show "wavBlobOfPcm pcmData =
      Inr \<lparr>blob_bytes = canonical_wav_header (length pcmData) @ pcmData,
           blob_type = js ''audio/wav''\<rparr>"
    by (rule wavBlobOfPcm_closed)
qed (simp_all only: blob.simps header_tags header_payload header_sizes header_format
      header_length length_append header_size_bytes)

theorem wav_container_witness:
  "(\<exists>b. wavBlobOfPcm [1, 2, 3] = Inr b \<and> length (blob_bytes b) = 47 \<and>
        getUint32 (blob_bytes b) 4 = 39 \<and> getUint32 (blob_bytes b) 40 = 3 \<and>
        drop 44 (blob_bytes b) = [1, 2, 3]) \<and>
   (\<exists>b. wavBlobOfPcm [] = Inr b \<and> length (blob_bytes b) = 44 \<and>
        getUint32 (blob_bytes b) 4 = 36 \<and> getUint32 (blob_bytes b) 40 = 0)"
proof -
  have a: "length [1, 2, 3 :: byte] + 36 < 4294967296" by simp
  have b: "length ([] :: byte list) + 36 < 4294967296" by simp
  from a wav_container [of "[1, 2, 3]"]
  have 1: "\<exists>b. wavBlobOfPcm [1, 2, 3] = Inr b \<and> length (blob_bytes b) = 47 \<and>
        getUint32 (blob_bytes b) 4 = 39 \<and> getUint32 (blob_bytes b) 40 = 3 \<and>
        drop 44 (blob_bytes b) = [1, 2, 3]"
    by auto
  from b wav_container [of "[]"]
  have 2: "\<exists>b. wavBlobOfPcm [] = Inr b \<and> length (blob_bytes b) = 44 \<and>
        getUint32 (blob_bytes b) 4 = 36 \<and> getUint32 (blob_bytes b) 40 = 0"
    by auto
  from 1 2 show ?thesis by blast
qed

section \<open>Releasing the audio handle\<close>

text \<open>
  The handlers other than the audio handler revoke nothing themselves, and they leave the
  audio URL alone or set it to null.
\<close>

lemma quiet_handlers:
  "count_list (snd (handleGeneratePrompt s r1)) (RevokeObjectURL u) = 0"
  "count_list (snd (handleGenerateImage s r2)) (RevokeObjectURL u) = 0"
  "count_list (snd (handleGenerateNextVerse s r1 r2)) (RevokeObjectURL u) = 0"
  "count_list (snd (handleFetchVerseText s r3)) (RevokeObjectURL u) = 0"
  by (auto simp: handleGeneratePrompt_def handleGenerateImage_def handleGenerateNextVerse_def
      handleFetchVerseText_def Let_def split: sum.splits prod.splits)

lemma nextVerse_catch_audio [simp]:
  "generatedAudioUrl (nextVerse_catch lastValidRef s err) = generatedAudioUrl s"
  by (simp add: nextVerse_catch_def)

lemma handler_audio_url:
  "generatedAudioUrl (fst (handleGeneratePrompt s r1)) = generatedAudioUrl s \<or>
   generatedAudioUrl (fst (handleGeneratePrompt s r1)) = None"
  "generatedAudioUrl (fst (handleGenerateImage s r2)) = generatedAudioUrl s"
  "generatedAudioUrl (fst (handleGenerateNextVerse s r1 r2)) = generatedAudioUrl s"
  "generatedAudioUrl (fst (handleFetchVerseText s r3)) = generatedAudioUrl s"
  "generatedAudioUrl (handleStartNew s) = None"
  by (auto simp: handleGeneratePrompt_def handleGenerateImage_def handleGenerateNextVerse_def
      handleFetchVerseText_def handleStartNew_def Let_def split: sum.splits prod.splits)

lemma releases_append:
  "releases (p\<lparr>trace := trace p @ es\<rparr>) u = releases p u + count_list es (RevokeObjectURL u)"
  by (simp add: releases_def)

lemma commit_ok:
  assumes ok: "page_ok p"
    and quiet: "\<And>u. count_list (snd r) (RevokeObjectURL u) = 0"
    and url: "generatedAudioUrl (fst r) = generatedAudioUrl (ui p) \<or> generatedAudioUrl (fst r) = None"
  shows "page_ok (commit p r)"
proof (cases "generatedAudioUrl (fst r) = generatedAudioUrl (ui p)")
  case True
  then have "releases (commit p r) u = releases p u" for u
    by (simp add: commit_def releases_def rerender_def quiet)
  with ok True show ?thesis
    by (simp add: page_ok_def commit_def)
next
  case False
  with url have none: "generatedAudioUrl (fst r) = None" by simp
  from False none obtain n where held: "generatedAudioUrl (ui p) = Some (BlobUrl n)"
    by (cases "generatedAudioUrl (ui p)") (auto intro: url.exhaust)
  have rel: "releases (commit p r) u = releases p u + (if u = BlobUrl n then 1 else 0)" for u
    using False by (simp add: commit_def releases_def rerender_def quiet held effectCleanup_def)
  from ok held have "n < created p" "releases p (BlobUrl n) = 0"
    by (simp_all add: page_ok_def)
  with ok show ?thesis
    unfolding page_ok_def rel
    by (auto simp: commit_def none held)
qed


lemma audioClick_settle_cases:
  "(\<exists>s2. audioClick_settle s s1 atob reply fresh = (s2, [CreateObjectURL fresh]) \<and>
         generatedAudioUrl s2 = Some fresh) \<or>
   (\<exists>s2. audioClick_settle s s1 atob reply fresh = (s2, []) \<and>
         generatedAudioUrl s2 = generatedAudioUrl s1)"
  by (simp add: audioClick_settle_def split: sum.splits)

lemma clickGenerateAudio_ok:
  assumes ok: "page_ok p"
  shows "page_ok (clickGenerateAudio atob p reply)"
proof (cases "audioClick_rejected (ui p)")
  case True
  with ok show ?thesis by (simp add: clickGenerateAudio_def)
next
  case False
  define s1 where "s1 = fst (audioClick_begin (ui p))"
  define e1 where "e1 = snd (audioClick_begin (ui p))"
  have s1_url: "generatedAudioUrl s1 = None"
    by (simp add: s1_def audioClick_begin_def)
  have e1_count: "count_list e1 (RevokeObjectURL u) =
      (if generatedAudioUrl (ui p) = Some u then 1 else 0)" for u
    by (auto simp: e1_def audioClick_begin_def speechRequests_def split: option.splits)
  have r1_count: "count_list (rerender (ui p) s1) (RevokeObjectURL u) =
      (if generatedAudioUrl (ui p) = Some u then 1 else 0)" for u
    by (auto simp: rerender_def s1_url effectCleanup_def split: option.splits)
  have r2: "rerender s1 s2 = []" for s2
    by (simp add: rerender_def s1_url effectCleanup_def)
  from audioClick_settle_cases [of "ui p" s1 atob reply "BlobUrl (created p)"]
  show ?thesis
  proof (elim disjE exE conjE)
    fix s2
    assume settle: "audioClick_settle (ui p) s1 atob reply (BlobUrl (created p)) =
        (s2, [CreateObjectURL (BlobUrl (created p))])"
      and url: "generatedAudioUrl s2 = Some (BlobUrl (created p))"
    have page: "clickGenerateAudio atob p reply =
        p\<lparr>ui := s2,
          trace := trace p @ e1 @ rerender (ui p) s1 @ [CreateObjectURL (BlobUrl (created p))],
          created := created p + 1\<rparr>"
      unfolding clickGenerateAudio_def Let_def case_prod_beta s1_def [symmetric]
        e1_def [symmetric] settle
      using False by (simp add: r2)
    have rel: "releases (clickGenerateAudio atob p reply) u =
        releases p u + (if generatedAudioUrl (ui p) = Some u then 2 else 0)" for u
      by (simp add: page releases_def e1_count r1_count)
    from ok show ?thesis
      unfolding page_ok_def rel
      by (auto simp: page url less_Suc_eq)
  next
    fix s2
    assume settle: "audioClick_settle (ui p) s1 atob reply (BlobUrl (created p)) = (s2, [])"
      and url: "generatedAudioUrl s2 = generatedAudioUrl s1"
    have page: "clickGenerateAudio atob p reply =
        p\<lparr>ui := s2, trace := trace p @ e1 @ rerender (ui p) s1\<rparr>"
      unfolding clickGenerateAudio_def Let_def case_prod_beta s1_def [symmetric]
        e1_def [symmetric] settle
      using False by (simp add: r2)
    have rel: "releases (clickGenerateAudio atob p reply) u =
        releases p u + (if generatedAudioUrl (ui p) = Some u then 2 else 0)" for u
      by (simp add: page releases_def e1_count r1_count)
    from ok show ?thesis
      unfolding page_ok_def rel
      by (auto simp: page url s1_url)
  qed
qed

lemma step_ok: "page_ok p \<Longrightarrow> page_ok (step atob p ev)"
  by (cases ev) (simp_all add: commit_ok quiet_handlers handler_audio_url clickGenerateAudio_ok)

lemma mounted_ok: "page_ok mounted"
  by (simp add: page_ok_def mounted_def initial_state_def releases_def)

lemma run_ok: "page_ok p \<Longrightarrow> page_ok (run atob events p)"
  unfolding run_def by (induction events arbitrary: p) (simp_all add: step_ok)

lemma unmount_releases:
  "releases (unmount p) u = releases p u + (if generatedAudioUrl (ui p) = Some u then 1 else 0)"
  by (auto simp: unmount_def releases_def effectCleanup_def split: option.splits)

text \<open>
  After any sequence of events followed by the unmount, every URL that was handed out
  has been revoked, once or twice (no handle leaks), and the handle held at the end has
  been revoked exactly once.
\<close>

lemma released_after_unmount:
  assumes "n < created (run atob events mounted)"
  shows "1 \<le> releases (unmount (run atob events mounted)) (BlobUrl n) \<and>
    releases (unmount (run atob events mounted)) (BlobUrl n) \<le> 2"
proof -
  have "page_ok (run atob events mounted)"
    by (rule run_ok) (rule mounted_ok)
  with assms show ?thesis
    unfolding unmount_releases page_ok_def by auto
qed

lemma last_handle_released_once:
  assumes "generatedAudioUrl (ui (run atob events mounted)) = Some u"
  shows "releases (unmount (run atob events mounted)) u = 1"
proof -
  have "page_ok (run atob events mounted)"
    by (rule run_ok) (rule mounted_ok)
  with assms show ?thesis
    unfolding unmount_releases page_ok_def by (cases u) auto
qed


lemma createWavBlob_atob_ok:
  "createWavBlob atob_ok base64 = wavBlobOfPcm [0, 0]"
  by (simp add: createWavBlob_def atob_ok_def andThen_def)

lemmas narration_eval =
  run_def two_narrations_def mounted_def commit_def clickGenerateAudio_def
  audioClick_rejected_def audioClick_begin_def audioClick_settle_def generateSpeech_def
  speechRequests_def promptForAudio_def voiceName_def orElse_def andThen_def
  createWavBlob_atob_ok wavBlobOfPcm_closed rerender_def effectCleanup_def unmount_def initial_state_def
  trim_def isWhiteSpace_def isLineTerminator_def releases_def

text \<open>
  Claim C7. Two narrations in succession, then the unmount. The second click revokes the
  first URL in the handler; the render that follows, in which the URL is null, makes React
  run the cleanup of the effect, which revokes the same URL again. The first handle is
  released before the second is created and the last handle is released once, at the
  unmount, but the first handle is released twice. The text snapshot is that of the
  second call.
\<close>

theorem narration_handle_released_twice:
  "trace (unmount (run atob_ok two_narrations mounted)) =
     [Request (SpeechRequest (js ''a'') (js ''Puck'')),
      CreateObjectURL (BlobUrl 0),
      RevokeObjectURL (BlobUrl 0),
      Request (SpeechRequest (js ''b'') (js ''Puck'')),
      RevokeObjectURL (BlobUrl 0),
      CreateObjectURL (BlobUrl 1),
      RevokeObjectURL (BlobUrl 1)] \<and>
   releases (unmount (run atob_ok two_narrations mounted)) (BlobUrl 0) = 2 \<and>
   releases (unmount (run atob_ok two_narrations mounted)) (BlobUrl 1) = 1 \<and>
   narratedText (ui (run atob_ok two_narrations mounted)) = Some (js ''b'')"
  by (simp add: narration_eval)

section \<open>The reference parser: what the pattern matches\<close>

lemma digit_not_space: "isDigit x \<Longrightarrow> \<not> isWhiteSpace x"
  by (auto simp: isDigit_def isWhiteSpace_def isLineTerminator_def)

lemma colon_not_digit: "\<not> isDigit 58"
  by (simp add: isDigit_def)

text \<open>
  The tail of the pattern: it matches exactly white space, digits, a colon and digits.
\<close>

lemma match_tail_complete:
  assumes ws: "list_all isWhiteSpace ws"
    and c: "c \<noteq> []" "list_all isDigit c"
    and v: "v \<noteq> []" "list_all isDigit v"
  shows "match_tail (ws @ c @ [58] @ v) = Some (c, v)"
proof -
  obtain d c' where cc: "c = d # c'" using c(1) by (cases c) auto
  have d: "\<not> isWhiteSpace d" using c(2) cc by (simp add: digit_not_space)
  have 1: "dropWhile isWhiteSpace (ws @ c @ 58 # v) = c @ 58 # v"
    using ws d by (simp add: cc dropWhile_append2 list_all_iff)
  have 2: "takeWhile isDigit (c @ 58 # v) = c"
    using c(2) by (simp add: takeWhile_tail colon_not_digit list_all_iff)
  have 3: "dropWhile isDigit (c @ 58 # v) = 58 # v"
    using c(2) by (simp add: dropWhile_append2 colon_not_digit list_all_iff)
  show ?thesis
    using c v by (simp add: match_tail_def 1 2 3 Let_def)
qed

lemma match_tail_sound:
  assumes "match_tail r = Some (c, v)"
  shows "\<exists>ws. r = ws @ c @ [58] @ v \<and> list_all isWhiteSpace ws \<and>
    c \<noteq> [] \<and> list_all isDigit c \<and> v \<noteq> [] \<and> list_all isDigit v"
proof -
  define r1 where "r1 = dropWhile isWhiteSpace r"
  define ws where "ws = takeWhile isWhiteSpace r"
  have r: "r = ws @ r1" by (simp add: ws_def r1_def)
  from assms obtain x where r2: "dropWhile isDigit r1 = x # v"
    and c: "c = takeWhile isDigit r1" "c \<noteq> []" and x: "x = 58"
    and v: "v \<noteq> []" "list_all isDigit v"
    by (auto simp: match_tail_def Let_def r1_def split: list.splits if_splits)
  have "r1 = c @ x # v"
    using takeWhile_dropWhile_id [of isDigit r1] by (simp add: c(1) r2)
  moreover have "list_all isWhiteSpace ws"
    by (simp add: ws_def list_all_iff) (meson set_takeWhileD)
  moreover have "list_all isDigit c"
    by (simp add: c(1) list_all_iff) (meson set_takeWhileD)
  ultimately show ?thesis
    using r c(2) v x by auto
qed

lemma match_from_Some:
  "match_from s k = Some m \<Longrightarrow> \<exists>j\<le>k. match_at s j = Some m"
proof (induction k)
  case 0
  then show ?case by simp
next
  case (Suc k)
  show ?case
  proof (cases "match_at s (Suc k)")
    case None
    with Suc obtain j where "j \<le> k" "match_at s j = Some m" by auto
    then show ?thesis by (auto intro: le_SucI)
  next
    case (Some m')
    with Suc.prems have "m' = m" by simp
    with Some show ?thesis by auto
  qed
qed

lemma match_from_None:
  "match_from s k = None \<Longrightarrow> j \<le> k \<Longrightarrow> match_at s j = None"
proof (induction k)
  case 0
  then show ?case by simp
next
  case (Suc k)
  then show ?case
    by (cases "match_at s (Suc k)") (auto simp: le_Suc_eq)
qed

lemma take_before_terminator:
  assumes "j \<le> length (takeWhile (\<lambda>c. \<not> isLineTerminator c) t)"
  shows "\<forall>x\<in>set (take j t). \<not> isLineTerminator x"
proof -
  let ?w = "takeWhile (\<lambda>c. \<not> isLineTerminator c) t"
  have "?w = take (length ?w) t" by (rule takeWhile_eq_take)
  then have "take j t = take j ?w"
    using assms by (metis min.absorb1 take_take)
  then have "set (take j t) \<subseteq> set ?w" by (simp add: set_take_subset)
  then show ?thesis by (auto dest: set_takeWhileD)
qed

text \<open>
  What a match says about the text: the first group ends in a non-digit and has no line
  terminator before its last code unit.
\<close>

lemma regex_match_sound:
  assumes "regex_match t = Some (g, c, v)"
  shows "\<exists>ws. t = g @ ws @ c @ [58] @ v \<and> g \<noteq> [] \<and> \<not> isDigit (last g) \<and>
    list_all isWhiteSpace ws \<and> c \<noteq> [] \<and> list_all isDigit c \<and> v \<noteq> [] \<and> list_all isDigit v \<and>
    (\<forall>x\<in>set (butlast g). \<not> isLineTerminator x)"
proof -
  from assms obtain j where j: "j \<le> length (takeWhile (\<lambda>c. \<not> isLineTerminator c) t)"
    and at: "match_at t j = Some (g, c, v)"
    unfolding regex_match_def by (blast dest: match_from_Some)
  from at have lt: "j < length t" and nd: "\<not> isDigit (t ! j)"
    and g: "g = take (Suc j) t" and tail: "match_tail (drop (Suc j) t) = Some (c, v)"
    by (auto simp: match_at_def split: if_splits option.splits)
  from match_tail_sound [OF tail] obtain ws where ws: "drop (Suc j) t = ws @ c @ [58] @ v"
    "list_all isWhiteSpace ws" "c \<noteq> []" "list_all isDigit c" "v \<noteq> []" "list_all isDigit v"
    by blast
  have g': "g = take j t @ [t ! j]"
    using lt by (simp add: g take_Suc_conv_app_nth)
  have "t = g @ ws @ c @ [58] @ v"
    using append_take_drop_id [of "Suc j" t] by (simp add: g ws(1))
  moreover have "\<forall>x\<in>set (butlast g). \<not> isLineTerminator x"
    using take_before_terminator [OF j] by (simp add: g')
  ultimately show ?thesis
    using ws nd by (auto simp: g')
qed

lemma space_not_digit: "isWhiteSpace x \<Longrightarrow> \<not> isDigit x"
  using digit_not_space by blast

lemma terminator_is_space: "isLineTerminator x \<Longrightarrow> isWhiteSpace x"
  by (simp add: isWhiteSpace_def)

lemma digits_suffix_unique:
  assumes eq: "xs @ a # ds = ys @ b # es"
    and a: "\<not> isDigit a" and b: "\<not> isDigit b"
    and ds: "list_all isDigit ds" and es: "list_all isDigit es"
  shows "xs = ys \<and> a = b \<and> ds = es"
proof -
  have 1: "takeWhile isDigit (rev (xs @ a # ds)) = rev ds"
    using a ds by (simp add: takeWhile_tail list_all_iff)
  have 2: "takeWhile isDigit (rev (ys @ b # es)) = rev es"
    using b es by (simp add: takeWhile_tail list_all_iff)
  from 1 2 eq have "rev ds = rev es" by simp
  then have "ds = es" by simp
  with eq show ?thesis by simp
qed

text \<open>
  A text has the shape of a reference in one way only.
\<close>

lemma shape_unique:
  assumes eq: "p @ c @ [58] @ v = q @ d @ [58] @ w"
    and p: "p \<noteq> []" "\<not> isDigit (last p)" and q: "q \<noteq> []" "\<not> isDigit (last q)"
    and c: "list_all isDigit c" and d: "list_all isDigit d"
    and v: "list_all isDigit v" and w: "list_all isDigit w"
  shows "p = q \<and> c = d \<and> v = w"
proof -
  from eq have "(p @ c) @ 58 # v = (q @ d) @ 58 # w" by simp
  from digits_suffix_unique [OF this colon_not_digit colon_not_digit v w]
  have pc: "p @ c = q @ d" and vw: "v = w" by simp_all
  from pc p(1) q(1) have "butlast p @ last p # c = butlast q @ last q # d"
    by (metis append.assoc append_Cons append_Nil append_butlast_last_id)
  from digits_suffix_unique [OF this p(2) q(2) c d]
  have "butlast p = butlast q" "last p = last q" "c = d" by simp_all
  with p(1) q(1) vw show ?thesis
    by (metis append_butlast_last_id)
qed

text \<open>
  \<^verbatim>\<open>trim\<close> removes white space at both ends and nothing else.
\<close>

lemma trim_decomp:
  "\<exists>l r. s = l @ trim s @ r \<and> list_all isWhiteSpace l \<and> list_all isWhiteSpace r"
proof -
  define l where "l = takeWhile isWhiteSpace s"
  define d where "d = dropWhile isWhiteSpace s"
  define r where "r = rev (takeWhile isWhiteSpace (rev d))"
  have "d = rev (dropWhile isWhiteSpace (rev d)) @ rev (takeWhile isWhiteSpace (rev d))"
    by (metis rev_append rev_rev_ident takeWhile_dropWhile_id)
  then have "d = trim s @ r"
    unfolding trim_def r_def d_def [symmetric] .
  moreover have "s = l @ d" by (simp add: l_def d_def)
  moreover have "list_all isWhiteSpace l"
    by (simp add: l_def list_all_iff) (meson set_takeWhileD)
  moreover have "list_all isWhiteSpace r"
    by (simp add: r_def list_all_iff) (meson set_takeWhileD)
  ultimately show ?thesis by auto
qed

lemma trim_hd: "trim s \<noteq> [] \<Longrightarrow> \<not> isWhiteSpace (hd (trim s))"
proof -
  assume ne: "trim s \<noteq> []"
  define d where "d = dropWhile isWhiteSpace s"
  have dne: "d \<noteq> []"
  proof
    assume "d = []"
    then have "trim s = []" unfolding trim_def d_def [symmetric] by simp
    with ne show False by simp
  qed
  then have hd: "\<not> isWhiteSpace (hd d)" unfolding d_def by (rule hd_dropWhile)
  obtain x d' where d: "d = x # d'" using dne by (cases d) auto
  have "dropWhile isWhiteSpace (rev d' @ [x]) = dropWhile isWhiteSpace (rev d') @ [x]"
    using hd d by (simp add: dropWhile_append3)
  then have "trim s = x # rev (dropWhile isWhiteSpace (rev d'))"
    by (simp add: trim_def d_def [symmetric] d)
  with hd d show ?thesis by simp
qed

lemma trim_last: "trim s \<noteq> [] \<Longrightarrow> \<not> isWhiteSpace (last (trim s))"
proof -
  assume ne: "trim s \<noteq> []"
  define e where "e = dropWhile isWhiteSpace (rev (dropWhile isWhiteSpace s))"
  have ene: "e \<noteq> []" using ne by (simp add: trim_def e_def)
  then have "\<not> isWhiteSpace (hd e)" unfolding e_def by (rule hd_dropWhile)
  moreover have "last (rev e) = hd e" using ene by (simp add: last_rev)
  ultimately show ?thesis by (simp add: trim_def e_def)
qed

lemma trim_no_leading:
  assumes "g \<noteq> []" and "\<not> isWhiteSpace (hd g)"
  shows "trim g = rev (dropWhile isWhiteSpace (rev g))"
proof -
  from assms have "dropWhile isWhiteSpace g = g" by (cases g) auto
  then show ?thesis by (simp add: trim_def)
qed

lemma trim_append_spaces:
  assumes "g \<noteq> []" and "\<not> isWhiteSpace (hd g)" and "list_all isWhiteSpace ws"
  shows "trim (g @ ws) = trim g"
proof -
  have "dropWhile isWhiteSpace (rev ws @ rev g) = dropWhile isWhiteSpace (rev g)"
    by (rule dropWhile_append2) (use assms(3) in \<open>simp add: list_all_iff\<close>)
  moreover have "trim (g @ ws) = rev (dropWhile isWhiteSpace (rev (g @ ws)))"
    using assms(1,2) by (intro trim_no_leading) simp_all
  ultimately show ?thesis
    using assms(1,2) by (simp add: trim_no_leading)
qed

lemma no_leading_decomp:
  assumes "g \<noteq> []" and "\<not> isWhiteSpace (hd g)"
  shows "\<exists>r. g = trim g @ r \<and> list_all isWhiteSpace r \<and> trim g \<noteq> []"
proof -
  from trim_decomp [of g] obtain l r where g: "g = l @ trim g @ r"
    and l: "list_all isWhiteSpace l" and r: "list_all isWhiteSpace r" by blast
  have "l = []"
  proof (rule ccontr)
    assume "l \<noteq> []"
    then have "hd g = hd l" using g by (metis hd_append2)
    moreover have "isWhiteSpace (hd l)" using l \<open>l \<noteq> []\<close> by (cases l) auto
    ultimately show False using assms(2) by simp
  qed
  with g have g': "g = trim g @ r" by simp
  have "trim g \<noteq> []"
  proof
    assume "trim g = []"
    with g' have "g = r" by simp
    with r assms(1) have "isWhiteSpace (hd g)" by (cases g) auto
    with assms(2) show False by simp
  qed
  with g' r show ?thesis by blast
qed

lemma regex_match_exists:
  assumes t: "t = p @ c @ [58] @ v"
    and p: "p \<noteq> []" "\<not> isWhiteSpace (hd p)" "\<not> isDigit (last p)"
    and c: "c \<noteq> []" "list_all isDigit c" and v: "v \<noteq> []" "list_all isDigit v"
    and nt: "\<forall>x\<in>set (trim p). \<not> isLineTerminator x"
  shows "regex_match t \<noteq> None"
proof -
  from no_leading_decomp [OF p(1,2)] obtain r where pr: "p = trim p @ r"
    and r: "list_all isWhiteSpace r" and ne: "trim p \<noteq> []" by blast
  define b where "b = trim p"
  have pb: "p = b @ r" using pr by (simp add: b_def)
  have bne: "b \<noteq> []" using ne by (simp add: b_def)
  have tb: "t = b @ r @ c @ [58] @ v" by (simp add: t pb)
  let ?K = "length (takeWhile (\<lambda>c. \<not> isLineTerminator c) t)"
  have "takeWhile (\<lambda>c. \<not> isLineTerminator c) t =
      b @ takeWhile (\<lambda>c. \<not> isLineTerminator c) (r @ c @ [58] @ v)"
    unfolding tb by (rule takeWhile_append2) (use nt in \<open>simp add: b_def\<close>)
  then have K: "length b \<le> ?K" by simp
  have "\<exists>j\<le>?K. match_at t j \<noteq> None"
  proof (cases "isDigit (last b)")
    case False
    define j where "j = length b - 1"
    have jb: "Suc j = length b" using bne by (simp add: j_def)
    have "j < length t" using jb by (simp add: tb)
    moreover have "t ! j = last b"
      using bne by (simp add: tb nth_append last_conv_nth j_def)
    moreover have "drop (Suc j) t = r @ c @ [58] @ v"
      by (simp add: jb tb)
    ultimately have "match_at t j \<noteq> None"
      using False match_tail_complete [OF r c v] by (simp add: match_at_def)
    moreover have "j \<le> ?K" using K jb by simp
    ultimately show ?thesis by blast
  next
    case True
    have "r \<noteq> []"
    proof
      assume "r = []"
      with pb have "p = b" by simp
      with True p(3) show False by simp
    qed
    then obtain x r' where rx: "r = x # r'" by (cases r) auto
    with r have x: "isWhiteSpace x" and r': "list_all isWhiteSpace r'" by simp_all
    define j where "j = length b"
    have "j < length t" by (simp add: tb j_def rx)
    moreover have "t ! j = x" by (simp add: tb j_def rx nth_append)
    moreover have "drop (Suc j) t = r' @ c @ [58] @ v"
      by (simp add: tb j_def rx)
    ultimately have "match_at t j \<noteq> None"
      using space_not_digit [OF x] match_tail_complete [OF r' c v] by (simp add: match_at_def)
    moreover have "j \<le> ?K" using K by (simp add: j_def)
    ultimately show ?thesis by blast
  qed
  then show ?thesis
    unfolding regex_match_def by (metis match_from_None)
qed

lemma trim_no_terminator:
  assumes g: "g \<noteq> []" "\<not> isWhiteSpace (hd g)"
    and bl: "\<forall>x\<in>set (butlast g). \<not> isLineTerminator x"
  shows "\<forall>x\<in>set (trim g). \<not> isLineTerminator x"
proof -
  define b where "b = trim g"
  from no_leading_decomp [OF g] obtain r where gr: "g = b @ r"
    and r: "list_all isWhiteSpace r" and ne: "b \<noteq> []"
    unfolding b_def by blast
  have lb: "\<not> isWhiteSpace (last b)"
    using trim_last [of g] ne by (simp add: b_def)
  have "\<forall>x\<in>set b. \<not> isLineTerminator x"
  proof (cases "r = []")
    case True
    have nl: "\<not> isLineTerminator (last b)" using lb terminator_is_space by blast
    have "butlast g = butlast b" by (simp add: gr True)
    moreover have "set b = set (butlast b @ [last b])" using ne by simp
    ultimately show ?thesis using bl nl by auto
  next
    case False
    then have "butlast g = b @ butlast r" by (simp add: gr butlast_append)
    with bl show ?thesis by simp
  qed
  then show ?thesis by (simp add: b_def)
qed

lemma regex_match_shape:
  assumes m: "regex_match t = Some (g, c', v')"
    and t: "t = p @ c @ [58] @ v"
    and hd: "\<not> isWhiteSpace (hd t)"
    and p: "p \<noteq> []" "\<not> isDigit (last p)"
    and c: "list_all isDigit c" and v: "list_all isDigit v"
  shows "c' = c \<and> v' = v \<and> trim g = trim p \<and> (\<forall>x\<in>set (trim p). \<not> isLineTerminator x)"
proof -
  from regex_match_sound [OF m] obtain ws where tg: "t = g @ ws @ c' @ [58] @ v'"
    and g: "g \<noteq> []" "\<not> isDigit (last g)" and ws: "list_all isWhiteSpace ws"
    and c': "list_all isDigit c'" and v': "list_all isDigit v'"
    and bl: "\<forall>x\<in>set (butlast g). \<not> isLineTerminator x"
    by blast
  have last: "\<not> isDigit (last (g @ ws))"
  proof (cases "ws = []")
    case True
    with g(2) show ?thesis by simp
  next
    case False
    with ws have "isWhiteSpace (last ws)" by (simp add: list_all_iff)
    with False show ?thesis by (simp add: space_not_digit)
  qed
  from t tg have "p @ c @ [58] @ v = (g @ ws) @ c' @ [58] @ v'" by simp
  from shape_unique [OF this p _ last c c' v v'] g(1)
  have eq: "p = g @ ws" "c = c'" "v = v'" by simp_all
  have hg: "\<not> isWhiteSpace (hd g)" using hd g(1) by (simp add: tg)
  have "trim p = trim g"
    unfolding eq(1) using g(1) hg ws by (rule trim_append_spaces)
  moreover have "\<forall>x\<in>set (trim g). \<not> isLineTerminator x"
    using g(1) hg bl by (rule trim_no_terminator)
  ultimately show ?thesis using eq by simp
qed

text \<open>
  Printing the number read from a string of digits gives the digits without their
  leading zeros.
\<close>

lemma parseInt_snoc: "parseInt (ds @ [d]) = 10 * parseInt ds + (d - 48)"
  by (simp add: parseInt_def)

lemma parseInt_zero_iff:
  "list_all isDigit ds \<Longrightarrow> parseInt ds = 0 \<longleftrightarrow> (\<forall>d\<in>set ds. d = 48)"
proof (induction ds rule: rev_induct)
  case Nil
  then show ?case by (simp add: parseInt_def)
next
  case (snoc d ds)
  then show ?case
    by (auto simp: parseInt_snoc isDigit_def)
qed

lemma numberToString_step:
  assumes "k < 10"
  shows "numberToString (10 * n + k) =
    (if n = 0 then [48 + k] else numberToString n @ [48 + k])"
  using assms by (subst numberToString.simps) auto

lemma numberToString_parseInt:
  "list_all isDigit ds \<Longrightarrow> numberToString (parseInt ds) = stripLeadingZeros ds"
proof (induction ds rule: rev_induct)
  case Nil
  show ?case by (simp add: parseInt_def stripLeadingZeros_def)
next
  case (snoc d ds)
  then have ds: "list_all isDigit ds" and d: "isDigit d" by simp_all
  from d have k: "d - 48 < 10" and dk: "48 + (d - 48) = d"
    unfolding isDigit_def by linarith+
  show ?case
  proof (cases "\<forall>x\<in>set ds. x = 48")
    case True
    then have z: "parseInt ds = 0" using ds by (simp add: parseInt_zero_iff)
    have "dropWhile (\<lambda>x. x = 48) (ds @ [d]) = dropWhile (\<lambda>x. x = 48) [d]"
      by (rule dropWhile_append2) (use True in simp)
    then have "stripLeadingZeros (ds @ [d]) = [d]"
      by (simp add: stripLeadingZeros_def)
    moreover have "numberToString (parseInt (ds @ [d])) = [d]"
      unfolding parseInt_snoc z using numberToString_step [OF k, of 0] dk by simp
    ultimately show ?thesis by simp
  next
    case False
    then have nz: "parseInt ds \<noteq> 0" using ds by (simp add: parseInt_zero_iff)
    from False obtain x where x: "x \<in> set ds" "x \<noteq> 48" by blast
    then have dw: "dropWhile (\<lambda>x. x = 48) (ds @ [d]) = dropWhile (\<lambda>x. x = 48) ds @ [d]"
      by (intro dropWhile_append1) simp_all
    have "stripLeadingZeros (ds @ [d]) = stripLeadingZeros ds @ [d]"
      using False by (auto simp: stripLeadingZeros_def dw dropWhile_eq_Nil_conv)
    moreover have "numberToString (parseInt (ds @ [d])) = numberToString (parseInt ds) @ [d]"
      unfolding parseInt_snoc using numberToString_step [OF k, of "parseInt ds"] nz dk by simp
    ultimately show ?thesis using snoc.IH [OF ds] by simp
  qed
qed

lemma parse_accepts:
  assumes sh: "reference_shape s p c v"
    and nt: "\<forall>x\<in>set (trim p). \<not> isLineTerminator x"
  shows "parseBibleRef s = Some \<lparr>book = trim p, chapter_num = parseInt c, verse = parseInt v\<rparr>"
proof -
  from sh have t: "trim s = p @ c @ [58] @ v" and p: "p \<noteq> []" "\<not> isDigit (last p)"
    and c: "c \<noteq> []" "list_all isDigit c" and v: "v \<noteq> []" "list_all isDigit v"
    by (simp_all add: reference_shape_def)
  have ne: "trim s \<noteq> []" using t p(1) by simp
  have hd: "\<not> isWhiteSpace (hd (trim s))" using ne by (rule trim_hd)
  then have hp: "\<not> isWhiteSpace (hd p)" using p(1) by (simp add: t)
  from regex_match_exists [OF t p(1) hp p(2) c v nt]
  obtain g c' v' where m: "regex_match (trim s) = Some (g, c', v')" by auto
  from regex_match_shape [OF m t hd p c(2) v(2)]
  show ?thesis by (simp add: parseBibleRef_def m)
qed

lemma parse_rejects_terminator:
  assumes sh: "reference_shape s p c v"
    and nt: "\<exists>x\<in>set (trim p). isLineTerminator x"
  shows "parseBibleRef s = None"
proof (cases "regex_match (trim s)")
  case None
  then show ?thesis by (simp add: parseBibleRef_def)
next
  case (Some m)
  obtain g c' v' where m: "m = (g, c', v')" by (cases m) auto
  from sh have t: "trim s = p @ c @ [58] @ v" and p: "p \<noteq> []" "\<not> isDigit (last p)"
    and c: "list_all isDigit c" and v: "list_all isDigit v"
    by (simp_all add: reference_shape_def)
  have "trim s \<noteq> []" using t p(1) by simp
  then have hd: "\<not> isWhiteSpace (hd (trim s))" by (rule trim_hd)
  from regex_match_shape [OF Some [unfolded m] t hd p c v] nt
  show ?thesis by blast
qed

lemma parse_rejects_other:
  assumes "parseBibleRef s \<noteq> None"
  shows "\<exists>p c v. reference_shape s p c v"
proof -
  from assms obtain g c v where m: "regex_match (trim s) = Some (g, c, v)"
    by (auto simp: parseBibleRef_def split: option.splits)
  from regex_match_sound [OF m] obtain ws where t: "trim s = g @ ws @ c @ [58] @ v"
    and g: "g \<noteq> []" "\<not> isDigit (last g)" and ws: "list_all isWhiteSpace ws"
    and c: "c \<noteq> []" "list_all isDigit c" and v: "v \<noteq> []" "list_all isDigit v"
    by blast
  have "\<not> isDigit (last (g @ ws))"
  proof (cases "ws = []")
    case True
    with g(2) show ?thesis by simp
  next
    case False
    with ws have "isWhiteSpace (last ws)" by (simp add: list_all_iff)
    with False show ?thesis by (simp add: space_not_digit)
  qed
  with t g(1) c v have "reference_shape s (g @ ws) c v"
    by (simp add: reference_shape_def)
  then show ?thesis by blast
qed

text \<open>
  Claim C6, as the code has it. A text of the shape book, digits, colon, digits is parsed
  when the trimmed book contains no line terminator: the book is the trimmed segment, the
  numbers are those of the digits, and formatting the result gives the book, one space and
  the two numbers without leading zeros, separated by a colon (for numbers below
  \<open>2 ^ 53\<close>, where the numbers of the program are exact). A text of that shape whose
  trimmed book contains a line terminator is not parsed, and neither is any text that has
  not the shape: the result is null.
\<close>

theorem parse_format_reference:
  "(reference_shape s p c v \<and> (\<forall>x\<in>set (trim p). \<not> isLineTerminator x) \<and>
    parseInt c < 9007199254740992 \<and> parseInt v < 9007199254740992 \<longrightarrow>
      parseBibleRef s =
        Some \<lparr>book = trim p, chapter_num = parseInt c, verse = parseInt v\<rparr> \<and>
      formatBibleRef \<lparr>book = trim p, chapter_num = parseInt c, verse = parseInt v\<rparr> =
        trim p @ [32] @ stripLeadingZeros c @ [58] @ stripLeadingZeros v) \<and>
   (reference_shape s p c v \<and> (\<exists>x\<in>set (trim p). isLineTerminator x) \<longrightarrow>
      parseBibleRef s = None) \<and>
   ((\<forall>q d w. \<not> reference_shape s q d w) \<longrightarrow> parseBibleRef s = None)"
proof (intro conjI impI)
  assume a: "reference_shape s p c v \<and> (\<forall>x\<in>set (trim p). \<not> isLineTerminator x) \<and>
    parseInt c < 9007199254740992 \<and> parseInt v < 9007199254740992"
  then have sh: "reference_shape s p c v"
    and nt: "\<forall>x\<in>set (trim p). \<not> isLineTerminator x"
    by blast+
  show "parseBibleRef s =
      Some \<lparr>book = trim p, chapter_num = parseInt c, verse = parseInt v\<rparr>"
    using sh nt by (rule parse_accepts)
  from sh have "list_all isDigit c" "list_all isDigit v"
    by (simp_all add: reference_shape_def)
  then show "formatBibleRef \<lparr>book = trim p, chapter_num = parseInt c, verse = parseInt v\<rparr> =
      trim p @ [32] @ stripLeadingZeros c @ [58] @ stripLeadingZeros v"
    by (simp add: formatBibleRef_def numberToString_parseInt del: numberToString.simps)
next
  assume "reference_shape s p c v \<and> (\<exists>x\<in>set (trim p). isLineTerminator x)"
  then have sh: "reference_shape s p c v" and nt: "\<exists>x\<in>set (trim p). isLineTerminator x"
    by blast+
  show "parseBibleRef s = None"
    using sh nt by (rule parse_rejects_terminator)
next
  assume none: "\<forall>q d w. \<not> reference_shape s q d w"
  show "parseBibleRef s = None"
  proof (rule ccontr)
    assume "parseBibleRef s \<noteq> None"
    then have "\<exists>p c v. reference_shape s p c v" by (rule parse_rejects_other)
    with none show False by blast
  qed
qed

lemmas shape_eval =
  reference_shape_def trim_def isWhiteSpace_def isLineTerminator_def isDigit_def parseInt_def
  stripLeadingZeros_def

text \<open>
  A reference whose book contains the line separator U+2028 has the shape the grammar
  asks for, and is not parsed.
\<close>

theorem parse_format_reference_counterexample:
  "reference_shape (js ''a'' @ [8232] @ js ''b 1:2'') (js ''a'' @ [8232] @ js ''b '')
     (js ''1'') (js ''2'') \<and>
   parseBibleRef (js ''a'' @ [8232] @ js ''b 1:2'') = None"
  by (simp add: shape_eval parseBibleRef_def regex_match_def match_at_def match_tail_def)

theorem parse_format_reference_witness:
  "parseBibleRef (js '' G 01:5 '') = Some \<lparr>book = js ''G'', chapter_num = 1, verse = 5\<rparr> \<and>
   formatBibleRef \<lparr>book = js ''G'', chapter_num = 1, verse = 5\<rparr> = js ''G 1:5'' \<and>
   parseBibleRef (js ''a'' @ [8232] @ js ''b 1:2'') = None \<and>
   parseBibleRef [] = None"
proof -
  have 1: "reference_shape (js '' G 01:5 '') (js ''G '') (js ''01'') (js ''5'')"
    by (simp add: shape_eval)
  have 2: "trim (js ''G '') = js ''G''" "parseInt (js ''01'') = 1" "parseInt (js ''5'') = 5"
    "stripLeadingZeros (js ''01'') = js ''1''" "stripLeadingZeros (js ''5'') = js ''5''"
    by (simp_all add: shape_eval)
  have 3: "reference_shape (js ''a'' @ [8232] @ js ''b 1:2'') (js ''a'' @ [8232] @ js ''b '')
     (js ''1'') (js ''2'')"
    by (simp add: shape_eval)
  have 4: "\<exists>x\<in>set (trim (js ''a'' @ [8232] @ js ''b '')). isLineTerminator x"
    by (simp add: shape_eval)
  have 5: "\<forall>q d w. \<not> reference_shape [] q d w"
    by (simp add: shape_eval)
  note t = parse_format_reference
  from 1 2 t [of "js '' G 01:5 ''" "js ''G ''" "js ''01''" "js ''5''"]
  have r1: "parseBibleRef (js '' G 01:5 '') =
      Some \<lparr>book = js ''G'', chapter_num = 1, verse = 5\<rparr> \<and>
    formatBibleRef \<lparr>book = js ''G'', chapter_num = 1, verse = 5\<rparr> = js ''G 1:5''"
    by (simp add: isLineTerminator_def)
  from 3 4 t [of "js ''a'' @ [8232] @ js ''b 1:2''" "js ''a'' @ [8232] @ js ''b ''" "js ''1''"
      "js ''2''"]
  have r2: "parseBibleRef (js ''a'' @ [8232] @ js ''b 1:2'') = None"
    by blast
  from 5 t [of "[]"] have r3: "parseBibleRef [] = None"
    by blast
  from r1 r2 r3 show ?thesis by blast
qed

end
